theory Spec2Isabelle
  imports Complex_Main "HOL-Library.Sublist"
begin

section \<open>Arrays\<close>

text \<open>
  The source works on NumPy arrays through the \<open>tl\<close> backend. An array is modelled as
  NumPy stores it: its shape and its entries in row-major (C) order. \<open>tl.ndim\<close> is the
  length of the shape, \<open>tl.shape(A)[0]\<close> and \<open>tl.shape(A)[1]\<close> are \<open>nrows\<close> and \<open>ncols\<close>,
  and \<open>A[i, j]\<close> is \<open>entry A i j\<close>. One-dimensional arrays (the singular values, the
  sign vectors) are plain lists.

  Numbers are real numbers: rounding is outside the model. The model is real-valued
  (the source conjugates, which is the identity on real arrays).
\<close>

datatype 'a ndarray = NDArray (shape: "nat list") (flat: "'a list")

type_synonym matrix = "real ndarray"

datatype error = ValueError string | IndexError string | ArpackError

definition ndim :: "'a ndarray \<Rightarrow> nat" where
  "ndim A = length (shape A)"

definition nrows :: "'a ndarray \<Rightarrow> nat" where
  "nrows A = shape A ! 0"

definition ncols :: "'a ndarray \<Rightarrow> nat" where
  "ncols A = shape A ! 1"

text \<open>A two-dimensional array of \<open>r\<close> rows and \<open>c\<close> columns, with all its entries.\<close>

definition is_matrix :: "'a ndarray \<Rightarrow> nat \<Rightarrow> nat \<Rightarrow> bool" where
  "is_matrix A r c = (shape A = [r, c] \<and> length (flat A) = r * c)"

definition entry :: "'a ndarray \<Rightarrow> nat \<Rightarrow> nat \<Rightarrow> 'a" where
  "entry A i j = flat A ! (i * ncols A + j)"

text \<open>The array of shape \<open>(r, c)\<close> whose entry \<open>(i, j)\<close> is \<open>f i j\<close>: every operation
  that returns a fresh two-dimensional array builds it with \<open>mk2\<close>.\<close>

definition mk2 :: "nat \<Rightarrow> nat \<Rightarrow> (nat \<Rightarrow> nat \<Rightarrow> 'a) \<Rightarrow> 'a ndarray" where
  "mk2 r c f = NDArray [r, c] (map (\<lambda>p. f (p div c) (p mod c)) [0..<r * c])"

text \<open>\<open>A[:, j]\<close> and \<open>A[i, :]\<close>.\<close>

definition col :: "'a ndarray \<Rightarrow> nat \<Rightarrow> 'a list" where
  "col A j = map (\<lambda>i. entry A i j) [0..<nrows A]"

definition row :: "'a ndarray \<Rightarrow> nat \<Rightarrow> 'a list" where
  "row A i = map (\<lambda>j. entry A i j) [0..<ncols A]"

text \<open>\<open>argmax\<close> of a one-dimensional array: the first index of a largest entry.\<close>

fun argmax :: "real list \<Rightarrow> nat" where
  "argmax [] = 0"
| "argmax (x # xs) = (if list_all (\<lambda>y. y \<le> x) xs then 0 else Suc (argmax xs))"

text \<open>\<open>A * s\<close> for a vector \<open>s\<close> with one entry per column (broadcast along the rows),
  and \<open>A * s[:, None]\<close> for a vector with one entry per row.\<close>

definition mul_cols :: "matrix \<Rightarrow> real list \<Rightarrow> matrix" where
  "mul_cols A s = mk2 (nrows A) (ncols A) (\<lambda>i j. entry A i j * s ! j)"

definition mul_rows :: "matrix \<Rightarrow> real list \<Rightarrow> matrix" where
  "mul_rows A s = mk2 (nrows A) (ncols A) (\<lambda>i j. entry A i j * s ! i)"

section \<open>Sign correction: \<open>svd_flip\<close>\<close>

text \<open>
  Lines 29--35 and 42--48 of the source: the sign of the entry of largest absolute value
  of every column of \<open>U\<close> (of every row of \<open>V\<close>). \<open>tl.sign\<close> is \<open>sgn\<close>: the sign of 0 is 0.
\<close>

definition col_signs :: "matrix \<Rightarrow> real list" where
  "col_signs U =
     (let max_abs_cols = map (\<lambda>j. argmax (map abs (col U j))) [0..<ncols U]
      in map (\<lambda>(i, j). sgn (entry U i j)) (zip max_abs_cols [0..<ncols U]))"

definition row_signs :: "matrix \<Rightarrow> real list" where
  "row_signs V =
     (let max_abs_rows = map (\<lambda>i. argmax (map abs (row V i))) [0..<nrows V]
      in map (\<lambda>(i, j). sgn (entry V i j)) (zip [0..<nrows V] max_abs_rows))"

text \<open>NumPy's \<open>argmax\<close> along an axis of length 0 raises a \<open>ValueError\<close>.\<close>

definition empty_argmax :: error where
  "empty_argmax = ValueError ''attempt to get argmax of an empty sequence''"

text \<open>
  \<open>svd_flip(U, V, u_based_decision)\<close> for two-dimensional \<open>U\<close> and \<open>V\<close>. The products
  never fail to broadcast: the sign vector has one entry per column of \<open>U\<close> (per row of
  \<open>V\<close>) where it is first used, and it is padded with ones and cut to the length of the
  other array before its second use.
\<close>

definition svd_flip :: "matrix \<Rightarrow> matrix \<Rightarrow> bool \<Rightarrow> error + (matrix \<times> matrix)" where
  "svd_flip U V u_based_decision =
     (if u_based_decision then
        (if nrows U = 0 then Inl empty_argmax
         else
           let signs = col_signs U;
               U' = mul_cols U signs;
               signs' = (if nrows V > ncols U' then signs @ replicate (nrows V - ncols U') 1
                         else signs);
               V' = mul_rows V (take (nrows V) signs')
           in Inr (U', V'))
      else
        (if ncols V = 0 then Inl empty_argmax
         else
           let signs = row_signs V;
               V' = mul_rows V signs;
               signs' = (if ncols U > nrows V' then signs @ replicate (ncols U - nrows V') 1
                         else signs);
               U' = mul_cols U (take (ncols U) signs')
           in Inr (U', V')))"

text \<open>The sign vector as the second array receives it: \<open>signs\<close> of length \<open>k\<close>, padded
  with ones when \<open>n > k\<close>, cut to \<open>n\<close> entries.\<close>

definition pad_ones :: "real list \<Rightarrow> nat \<Rightarrow> nat \<Rightarrow> real list" where
  "pad_ones signs n k = take n (if n > k then signs @ replicate (n - k) 1 else signs)"

text \<open>Every column of \<open>U\<close> (every row of \<open>V\<close>) has an entry other than 0.\<close>

definition nonzero_cols :: "matrix \<Rightarrow> bool" where
  "nonzero_cols U = list_all (\<lambda>j. list_ex (\<lambda>x. x \<noteq> 0) (col U j)) [0..<ncols U]"

definition nonzero_rows :: "matrix \<Rightarrow> bool" where
  "nonzero_rows V = list_all (\<lambda>i. list_ex (\<lambda>x. x \<noteq> 0) (row V i)) [0..<nrows V]"

section \<open>Errors, warnings and the environment\<close>

text \<open>Decimal digits of a natural number, for \<open>%d\<close> and the f-strings.\<close>

fun show_nat :: "nat \<Rightarrow> string" where
  "show_nat n = (if n < 10 then [char_of (48 + n)]
                 else show_nat (n div 10) @ [char_of (48 + n mod 10)])"

text \<open>The exception every strategy raises first (lines 189, 282, 332 and 413), and
  NumPy's exceptions for an index out of range, for a product of arrays whose inner
  dimensions differ, and for operands that do not broadcast.\<close>

definition not_a_matrix :: "nat \<Rightarrow> error" where
  "not_a_matrix d =
     ValueError (''matrix be a matrix. matrix.ndim is '' @ show_nat d @ '' != 2'')"

definition index_error :: "nat \<Rightarrow> nat \<Rightarrow> nat \<Rightarrow> error" where
  "index_error i axis n = IndexError (''index '' @ show_nat i @ '' is out of bounds for axis ''
      @ show_nat axis @ '' with size '' @ show_nat n)"

definition shapes_not_aligned :: error where
  "shapes_not_aligned = ValueError ''shapes not aligned''"

definition no_broadcast :: error where
  "no_broadcast = ValueError ''operands could not be broadcast together''"

text \<open>The two warnings of the source: the rank above \<open>max(matrix.shape)\<close> (with the
  requested rank and the maximum it is set to), and the conversion to NumPy.\<close>

datatype warning = RankTooLarge nat nat | ConvertingToNumPy

text \<open>
  What the source calls and the repository does not define is a parameter of the model:
  the dense singular value decomposition \<open>tl.svd(matrix, full_matrices)\<close>, the symmetric
  eigensolver \<open>tl.eigh\<close>, the sparse eigensolver \<open>scipy.sparse.linalg.eigsh(A, k, v0)\<close>,
  the QR decomposition, the random generator's \<open>normal\<close> and \<open>uniform\<close> (by the
  \<open>random_state\<close> given), the machine epsilon of the dtype in use, and Python's \<open>repr\<close>
  on strings. They are taken to return, except the sparse eigensolver: ARPACK gives up
  on some matrices (the zero matrix is one), and \<open>eigsh\<close> then raises an \<open>ArpackError\<close>,
  which the source does not catch.
\<close>

record env =
  tl_svd :: "matrix \<Rightarrow> bool \<Rightarrow> matrix \<times> real list \<times> matrix"
  tl_eigh :: "matrix \<Rightarrow> real list \<times> matrix"
  sp_eigsh :: "matrix \<Rightarrow> nat \<Rightarrow> real list \<Rightarrow> error + real list \<times> matrix"
  tl_qr :: "matrix \<Rightarrow> matrix \<times> matrix"
  rng_normal :: "nat option \<Rightarrow> nat \<Rightarrow> nat \<Rightarrow> matrix"
  rng_uniform :: "nat option \<Rightarrow> nat \<Rightarrow> real list"
  tl_eps :: real
  py_repr :: "string \<Rightarrow> string"

text \<open>Sequencing of steps that may raise.\<close>

definition and_then :: "error + 'a \<Rightarrow> ('a \<Rightarrow> error + 'b) \<Rightarrow> error + 'b" where
  "and_then m f = (case m of Inl e \<Rightarrow> Inl e | Inr x \<Rightarrow> f x)"

section \<open>Array operations of the backend\<close>

text \<open>\<open>tl.dot\<close> of two-dimensional arrays, \<open>tl.transpose\<close>, the slices \<open>A[:, :n]\<close> and
  \<open>A[:n, :]\<close> (a slice stops at the end of the axis), \<open>tl.flip\<close> along an axis,
  \<open>np.diag\<close>, and \<open>clip\<close> with a lower bound.\<close>

definition dot :: "matrix \<Rightarrow> matrix \<Rightarrow> error + matrix" where
  "dot A B =
     (if ncols A = nrows B
      then Inr (mk2 (nrows A) (ncols B)
                  (\<lambda>i j. sum_list (map (\<lambda>l. entry A i l * entry B l j) [0..<ncols A])))
      else Inl shapes_not_aligned)"

definition tl_transpose :: "matrix \<Rightarrow> matrix" where
  "tl_transpose A = mk2 (ncols A) (nrows A) (\<lambda>i j. entry A j i)"

definition slice_cols :: "matrix \<Rightarrow> nat \<Rightarrow> matrix" where
  "slice_cols A n = mk2 (nrows A) (min n (ncols A)) (entry A)"

definition slice_rows :: "matrix \<Rightarrow> nat \<Rightarrow> matrix" where
  "slice_rows A n = mk2 (min n (nrows A)) (ncols A) (entry A)"

definition flip_cols :: "matrix \<Rightarrow> matrix" where
  "flip_cols A = mk2 (nrows A) (ncols A) (\<lambda>i j. entry A i (ncols A - 1 - j))"

definition flip_rows :: "matrix \<Rightarrow> matrix" where
  "flip_rows A = mk2 (nrows A) (ncols A) (\<lambda>i j. entry A (nrows A - 1 - i) j)"

definition diag :: "matrix \<Rightarrow> real list" where
  "diag R = map (\<lambda>i. entry R i i) [0..<min (nrows R) (ncols R)]"

definition clip_min :: "real \<Rightarrow> real list \<Rightarrow> real list" where
  "clip_min a xs = map (max a) xs"

text \<open>An elementwise operation of a two-dimensional array and a row vector
  (\<open>A * s\<close>, \<open>A * s[None, :]\<close>, \<open>A / reshape(s, (1, -1))\<close>), with NumPy's broadcasting:
  the numbers of columns agree, or one of them is 1.\<close>

definition bcast_cols :: "(real \<Rightarrow> real \<Rightarrow> real) \<Rightarrow> matrix \<Rightarrow> real list \<Rightarrow> error + matrix" where
  "bcast_cols f A s =
     (let c = ncols A; n = length s in
      if c = n \<or> c = 1 \<or> n = 1
      then Inr (mk2 (nrows A) (max c n)
                  (\<lambda>i j. f (entry A i (if c = 1 then 0 else j)) (s ! (if n = 1 then 0 else j))))
      else Inl no_broadcast)"

section \<open>The strategies\<close>

type_synonym triplet = "matrix \<times> real list \<times> matrix"

text \<open>Lines 288--297, 338--347 and 419--428: the default rank and the clamp with its
  warning. The result is the warnings and the rank used.\<close>

definition clamp_rank :: "nat option \<Rightarrow> nat \<Rightarrow> warning list \<times> nat" where
  "clamp_rank n_eigenvecs max_dim =
     (let n = (case n_eigenvecs of None \<Rightarrow> max_dim | Some k \<Rightarrow> k)
      in if n > max_dim then ([RankTooLarge n max_dim], max_dim) else ([], n))"

text \<open>\<open>truncated_svd(matrix, n_eigenvecs)\<close>.\<close>

definition truncated_svd :: "env \<Rightarrow> matrix \<Rightarrow> nat option \<Rightarrow> warning list \<times> (error + triplet)" where
  "truncated_svd E matrix n_eigenvecs =
     (if ndim matrix \<noteq> 2 then ([], Inl (not_a_matrix (ndim matrix)))
      else
        let dim_1 = nrows matrix; dim_2 = ncols matrix;
            min_dim = min dim_1 dim_2; max_dim = max dim_1 dim_2;
            (w, n) = clamp_rank n_eigenvecs max_dim;
            full_matrices = (n > min_dim);
            (U, S, V) = tl_svd E matrix full_matrices
        in (w, Inr (slice_cols U n, take n S, slice_rows V n)))"

text \<open>\<open>partial_svd\<close>, lines 204--209: the dense branch. A slice \<open>[:None]\<close> is the whole
  axis.\<close>

definition partial_svd_dense :: "env \<Rightarrow> matrix \<Rightarrow> nat option \<Rightarrow> nat \<Rightarrow> error + triplet" where
  "partial_svd_dense E matrix n_eigenvecs min_dim =
     (let full_matrices = (case n_eigenvecs of None \<Rightarrow> True | Some n \<Rightarrow> n > min_dim);
          (U, S, V) = tl_svd E matrix full_matrices
      in case n_eigenvecs of
           None \<Rightarrow> Inr (U, S, V)
         | Some n \<Rightarrow> Inr (slice_cols U n, take n S, slice_rows V n))"

text \<open>Lines 222--225 and 239--240: the square roots of the eigenvalues clipped at 0,
  clipped at the machine epsilon; lines 228 and 243: their guarded reciprocals; lines
  233 and 247: the signs \<open>2 * (np.diag(R) >= 0) - 1\<close>.\<close>

definition sparse_singular_values :: "env \<Rightarrow> real list \<Rightarrow> real list" where
  "sparse_singular_values E S = clip_min (tl_eps E) (map sqrt (clip_min 0 S))"

definition guarded_reciprocals :: "env \<Rightarrow> real list \<Rightarrow> real list" where
  "guarded_reciprocals E S = map (\<lambda>s. if \<bar>s\<bar> \<le> tl_eps E then 0 else 1 / s) S"

definition diag_signs :: "matrix \<Rightarrow> real list" where
  "diag_signs R = map (\<lambda>d. if d \<ge> 0 then 1 else - 1) (diag R)"

text \<open>\<open>partial_svd\<close>, lines 211--255: the sparse branch.\<close>

definition partial_svd_sparse ::
  "env \<Rightarrow> matrix \<Rightarrow> nat \<Rightarrow> nat option \<Rightarrow> error + triplet" where
  "partial_svd_sparse E matrix n_eigenvecs random_state =
     (let dim_1 = nrows matrix; dim_2 = ncols matrix; min_dim = min dim_1 dim_2;
          v0 = rng_uniform E random_state min_dim
      in if dim_1 < dim_2 then
           and_then (dot matrix (tl_transpose matrix)) (\<lambda>G.
           and_then (sp_eigsh E G n_eigenvecs v0) (\<lambda>(S, U).
             let S = sparse_singular_values E S
             in and_then (bcast_cols (*) U (guarded_reciprocals E S)) (\<lambda>Us.
                and_then (dot (tl_transpose matrix) Us) (\<lambda>V.
                  let U = flip_cols U; S = rev S; V = flip_cols V;
                      (V, R) = tl_qr E V
                  in and_then (bcast_cols (*) V (diag_signs R)) (\<lambda>V.
                       Inr (U, S, tl_transpose V))))))
         else
           and_then (dot (tl_transpose matrix) matrix) (\<lambda>G.
           and_then (sp_eigsh E G n_eigenvecs v0) (\<lambda>(S, V).
             let S = sparse_singular_values E S
             in and_then (dot matrix V) (\<lambda>MV.
                and_then (bcast_cols (*) MV (guarded_reciprocals E S)) (\<lambda>U.
                  let U = flip_cols U; S = rev S; V = flip_cols V;
                      (U, R) = tl_qr E U
                  in and_then (bcast_cols (*) U (diag_signs R)) (\<lambda>U.
                       Inr (U, S, tl_transpose V)))))))"

text \<open>Lines 219--221 and 236--238 alone: the call of \<open>eigsh\<close> in the sparse branch, on
  the Gram matrix of the smaller side.\<close>

definition sparse_eigsh ::
  "env \<Rightarrow> matrix \<Rightarrow> nat \<Rightarrow> nat option \<Rightarrow> error + real list \<times> matrix" where
  "sparse_eigsh E matrix n_eigenvecs random_state =
     (let dim_1 = nrows matrix; dim_2 = ncols matrix; min_dim = min dim_1 dim_2;
          v0 = rng_uniform E random_state min_dim
      in if dim_1 < dim_2 then
           and_then (dot matrix (tl_transpose matrix)) (\<lambda>G. sp_eigsh E G n_eigenvecs v0)
         else
           and_then (dot (tl_transpose matrix) matrix) (\<lambda>G. sp_eigsh E G n_eigenvecs v0))"

text \<open>\<open>partial_svd(matrix, n_eigenvecs, random_state)\<close>. \<open>is_numpy\<close> is
  \<open>isinstance(matrix, np.ndarray)\<close>: whether the array is one of the NumPy backend.\<close>

definition partial_svd ::
  "env \<Rightarrow> bool \<Rightarrow> matrix \<Rightarrow> nat option \<Rightarrow> nat option \<Rightarrow> warning list \<times> (error + triplet)" where
  "partial_svd E is_numpy matrix n_eigenvecs random_state =
     (if ndim matrix \<noteq> 2 then ([], Inl (not_a_matrix (ndim matrix)))
      else
        let w = (if \<not> is_numpy then [ConvertingToNumPy] else []);
            dim_1 = nrows matrix; dim_2 = ncols matrix; min_dim = min dim_1 dim_2
        in case n_eigenvecs of
             None \<Rightarrow> (w, partial_svd_dense E matrix n_eigenvecs min_dim)
           | Some n \<Rightarrow>
               if n \<ge> min_dim then (w, partial_svd_dense E matrix n_eigenvecs min_dim)
               else (w, partial_svd_sparse E matrix n random_state))"

text \<open>Lines 351 and 355: \<open>tl.sqrt(tl.clip(S, tl.eps(S.dtype)))\<close>; the second argument of
  \<open>tl.clip\<close> is the lower bound.\<close>

definition symeig_singular_values :: "env \<Rightarrow> real list \<Rightarrow> real list" where
  "symeig_singular_values E S = map sqrt (clip_min (tl_eps E) S)"

text \<open>\<open>symeig_svd\<close>, lines 349--362: the factors before the truncation.\<close>

definition symeig_factors :: "env \<Rightarrow> matrix \<Rightarrow> error + triplet" where
  "symeig_factors E matrix =
     (let dim_1 = nrows matrix; dim_2 = ncols matrix in
      and_then
        (if dim_1 > dim_2 then
           and_then (dot matrix (tl_transpose matrix)) (\<lambda>G.
             let (S, U) = tl_eigh E G;
                 S = symeig_singular_values E S
             in and_then (bcast_cols (/) U S) (\<lambda>Us.
                and_then (dot (tl_transpose matrix) Us) (\<lambda>V. Inr (U, S, V))))
         else
           and_then (dot (tl_transpose matrix) matrix) (\<lambda>G.
             let (S, V) = tl_eigh E G;
                 S = symeig_singular_values E S
             in and_then (dot matrix V) (\<lambda>MV.
                and_then (bcast_cols (/) MV S) (\<lambda>U. Inr (U, S, V)))))
        (\<lambda>(U, S, V). Inr (flip_cols U, rev S, flip_rows (tl_transpose V))))"

text \<open>\<open>symeig_svd(matrix, n_eigenvecs)\<close>.\<close>

definition symeig_svd :: "env \<Rightarrow> matrix \<Rightarrow> nat option \<Rightarrow> warning list \<times> (error + triplet)" where
  "symeig_svd E matrix n_eigenvecs =
     (if ndim matrix \<noteq> 2 then ([], Inl (not_a_matrix (ndim matrix)))
      else
        let dim_1 = nrows matrix; dim_2 = ncols matrix;
            max_dim = max dim_1 dim_2;
            (w, n) = clamp_rank n_eigenvecs max_dim
        in (w, and_then (symeig_factors E matrix) (\<lambda>(U, S, V).
                 Inr (slice_cols U (min dim_1 n),
                      take (min (min dim_1 dim_2) n) S,
                      slice_rows V (min dim_2 n)))))"

text \<open>\<open>randomized_range_finder(A, n_dims, n_iter, random_state)\<close>: the power iterations
  (lines 152--154), then the whole function.\<close>

primrec power_iterations :: "env \<Rightarrow> matrix \<Rightarrow> matrix \<Rightarrow> nat \<Rightarrow> matrix \<Rightarrow> error + matrix" where
  "power_iterations E A A_H 0 Q = Inr Q"
| "power_iterations E A A_H (Suc i) Q =
     and_then (dot A_H Q) (\<lambda>Y.
       let Q = fst (tl_qr E Y) in
       and_then (dot A Q) (\<lambda>Y.
         let Q = fst (tl_qr E Y) in power_iterations E A A_H i Q))"

definition randomized_range_finder ::
  "env \<Rightarrow> matrix \<Rightarrow> nat \<Rightarrow> nat \<Rightarrow> nat option \<Rightarrow> error + matrix" where
  "randomized_range_finder E A n_dims n_iter random_state =
     (let dim_1 = nrows A; dim_2 = ncols A;
          Q = rng_normal E random_state dim_2 n_dims
      in and_then (dot A Q) (\<lambda>Y.
           let Q = fst (tl_qr E Y);
               A_H = tl_transpose A
           in power_iterations E A A_H n_iter Q))"

text \<open>Lines 432--437: whether the matrix is transposed before the range is found.\<close>

definition transpose_first :: "nat \<Rightarrow> nat \<Rightarrow> nat \<Rightarrow> nat \<Rightarrow> bool" where
  "transpose_first dim_1 dim_2 n n_dims =
     (let min_dim = min dim_1 dim_2
      in dim_1 > dim_2 \<and> n > min min_dim n_dims \<or> dim_1 < dim_2 \<and> n < min min_dim n_dims)"

text \<open>\<open>randomized_svd(matrix, n_eigenvecs, n_oversamples, n_iter, random_state)\<close>. The
  warnings of the inner call of \<open>truncated_svd\<close> follow the function's own.\<close>

definition randomized_svd ::
  "env \<Rightarrow> matrix \<Rightarrow> nat option \<Rightarrow> nat \<Rightarrow> nat \<Rightarrow> nat option
     \<Rightarrow> warning list \<times> (error + triplet)" where
  "randomized_svd E matrix n_eigenvecs n_oversamples n_iter random_state =
     (if ndim matrix \<noteq> 2 then ([], Inl (not_a_matrix (ndim matrix)))
      else
        let dim_1 = nrows matrix; dim_2 = ncols matrix;
            min_dim = min dim_1 dim_2; max_dim = max dim_1 dim_2;
            (w, n) = clamp_rank n_eigenvecs max_dim;
            n_dims = min (n + n_oversamples) max_dim
        in if transpose_first dim_1 dim_2 n n_dims
           then
             let matrix_T = tl_transpose matrix in
             case randomized_range_finder E matrix_T n_dims n_iter random_state of
               Inl e \<Rightarrow> (w, Inl e)
             | Inr Q \<Rightarrow>
                 let Q_H = tl_transpose Q in
                 (case dot Q_H matrix_T of
                    Inl e \<Rightarrow> (w, Inl e)
                  | Inr QA \<Rightarrow>
                      let matrix_reduced = tl_transpose QA;
                          (w', r) = truncated_svd E matrix_reduced (Some n)
                      in (w @ w', and_then r (\<lambda>(U, S, V).
                            and_then (dot V (tl_transpose Q)) (\<lambda>V. Inr (U, S, V)))))
           else
             case randomized_range_finder E matrix n_dims n_iter random_state of
               Inl e \<Rightarrow> (w, Inl e)
             | Inr Q \<Rightarrow>
                 let Q_H = tl_transpose Q in
                 (case dot Q_H matrix of
                    Inl e \<Rightarrow> (w, Inl e)
                  | Inr matrix_reduced \<Rightarrow>
                      let (w', r) = truncated_svd E matrix_reduced (Some n)
                      in (w @ w', and_then r (\<lambda>(U, S, V).
                            and_then (dot Q U) (\<lambda>U. Inr (U, S, V))))))"


section \<open>Non-negative initialisation: \<open>make_svd_non_negative\<close>\<close>

text \<open>
  The entries of \<open>W\<close> are computed with square roots and quotients, which NumPy evaluates
  to \<open>nan\<close> where no real number is the result: the square root of a negative number,
  and 0 / 0. A number of \<open>W\<close> is therefore a real number or \<open>NaN\<close>. A product with \<open>nan\<close>
  is \<open>nan\<close>, and a comparison with \<open>nan\<close> is false.

  \<open>np_div\<close> is only applied to an entry of a vector and the norm of that vector: where
  the norm is 0 the entry is 0 (lemma \<open>norm2_zero\<close>), and the quotient is 0 / 0.
\<close>

datatype npfloat = Num real | NaN

definition np_sqrt :: "real \<Rightarrow> npfloat" where
  "np_sqrt x = (if x < 0 then NaN else Num (sqrt x))"

fun np_mul :: "npfloat \<Rightarrow> npfloat \<Rightarrow> npfloat" where
  "np_mul (Num a) (Num b) = Num (a * b)"
| "np_mul _ _ = NaN"

definition np_div :: "real \<Rightarrow> real \<Rightarrow> npfloat" where
  "np_div a d = (if d = 0 then NaN else Num (a / d))"

fun np_less :: "npfloat \<Rightarrow> real \<Rightarrow> bool" where
  "np_less (Num a) b = (a < b)"
| "np_less NaN b = False"

text \<open>\<open>tl.norm\<close> (the 2-norm) and \<open>tl.mean\<close> (over all entries; of no entries, 0 / 0).\<close>

definition norm2 :: "real list \<Rightarrow> real" where
  "norm2 xs = sqrt (sum_list (map (\<lambda>x. \<bar>x\<bar> ^ 2) xs))"

definition tl_mean :: "real ndarray \<Rightarrow> npfloat" where
  "tl_mean t = np_div (sum_list (flat t)) (real (length (flat t)))"

text \<open>
  Modelled from the spec: \<open>soft_thresholding\<close> is imported from the module \<open>proximal\<close>,
  which is not among the sources. The spec calls it the soft-thresholding elementwise
  primitive, which zeroes entries below the threshold: the operator
  \<open>sign(x) * max(|x| - threshold, 0)\<close>.
\<close>

fun soft_thresholding :: "npfloat \<Rightarrow> real \<Rightarrow> npfloat" where
  "soft_thresholding (Num w) threshold = Num (sgn w * max (\<bar>w\<bar> - threshold) 0)"
| "soft_thresholding NaN threshold = NaN"

text \<open>An elementwise operation, and \<open>tl.index_update(W, tl.index[:, j], c)\<close>.\<close>

definition map_array :: "('a \<Rightarrow> 'b) \<Rightarrow> 'a ndarray \<Rightarrow> 'b ndarray" where
  "map_array g A = NDArray (shape A) (map g (flat A))"

definition set_col :: "'a ndarray \<Rightarrow> nat \<Rightarrow> 'a list \<Rightarrow> 'a ndarray" where
  "set_col W j c = mk2 (nrows W) (ncols W) (\<lambda>i j'. if j' = j then c ! i else entry W i j')"

text \<open>
  Lines 72--78: \<open>W\<close> with its first column. \<open>S[0]\<close>, \<open>U[:, 0]\<close> and \<open>V[0, :]\<close> raise an
  \<open>IndexError\<close> on an empty axis. \<open>H\<close> is filled beside \<open>W\<close> and never read: the model
  keeps of it the reads of \<open>V\<close>, which can raise.
\<close>

definition nndsvd_first :: "matrix \<Rightarrow> real list \<Rightarrow> matrix \<Rightarrow> error + npfloat ndarray" where
  "nndsvd_first U S V =
     (let W = mk2 (nrows U) (ncols U) (\<lambda>i j. Num 0) in
      if length S = 0 then Inl (index_error 0 0 0)
      else if ncols U = 0 then Inl (index_error 0 1 0)
      else if nrows V = 0 then Inl (index_error 0 0 0)
      else Inr (set_col W 0 (map (\<lambda>a. np_mul (np_sqrt (S ! 0)) (Num \<bar>a\<bar>)) (col U 0))))"

text \<open>Lines 81--104: column \<open>j\<close> of \<open>W\<close>, for \<open>j\<close> from 1.\<close>

definition nndsvd_column :: "matrix \<Rightarrow> real list \<Rightarrow> matrix \<Rightarrow> nat \<Rightarrow> error + npfloat list" where
  "nndsvd_column U S V j =
     (if nrows V \<le> j then Inl (index_error j 0 (nrows V))
      else
        let x = col U j; y = row V j;
            x_p = map (max 0) x; y_p = map (max 0) y;
            x_n = map (\<lambda>a. \<bar>min 0 a\<bar>) x; y_n = map (\<lambda>a. \<bar>min 0 a\<bar>) y;
            x_p_nrm = norm2 x_p; y_p_nrm = norm2 y_p;
            x_n_nrm = norm2 x_n; y_n_nrm = norm2 y_n;
            m_p = x_p_nrm * y_p_nrm; m_n = x_n_nrm * y_n_nrm;
            (u, sigma) = (if m_p > m_n then (map (\<lambda>a. np_div a x_p_nrm) x_p, m_p)
                          else (map (\<lambda>a. np_div a x_n_nrm) x_n, m_n))
        in if length S \<le> j then Inl (index_error j 0 (length S))
           else let lbd = np_sqrt (S ! j * sigma) in Inr (map (np_mul lbd) u))"

fun nndsvd_loop :: "matrix \<Rightarrow> real list \<Rightarrow> matrix \<Rightarrow> nat list \<Rightarrow> npfloat ndarray
                      \<Rightarrow> error + npfloat ndarray" where
  "nndsvd_loop U S V [] W = Inr W"
| "nndsvd_loop U S V (j # js) W =
     (case nndsvd_column U S V j of
        Inl e \<Rightarrow> Inl e
      | Inr c \<Rightarrow> nndsvd_loop U S V js (set_col W j c))"

text \<open>Lines 116--119: the message is formatted with \<open>%r\<close>, Python's \<open>repr\<close>, of the value
  and of the tuple of the two valid names.\<close>

definition invalid_nntype :: "env \<Rightarrow> string \<Rightarrow> error" where
  "invalid_nntype E nntype =
     ValueError (''Invalid nntype parameter: got '' @ py_repr E nntype
       @ '' instead of one of '' @ ''('' @ py_repr E ''nndsvd'' @ '', ''
       @ py_repr E ''nndsvda'' @ '')'')"

text \<open>\<open>make_svd_non_negative(tensor, U, S, V, nntype)\<close>, for two-dimensional \<open>U\<close> and \<open>V\<close>.\<close>

definition make_svd_non_negative ::
  "env \<Rightarrow> real ndarray \<Rightarrow> matrix \<Rightarrow> real list \<Rightarrow> matrix \<Rightarrow> string \<Rightarrow> error + npfloat ndarray" where
  "make_svd_non_negative E tensor U S V nntype =
     (case nndsvd_first U S V of
        Inl e \<Rightarrow> Inl e
      | Inr W0 \<Rightarrow>
         (case nndsvd_loop U S V [1..<ncols U] W0 of
            Inl e \<Rightarrow> Inl e
          | Inr W \<Rightarrow>
              let eps = tl_eps E in
              if nntype = ''nndsvd'' then Inr (map_array (\<lambda>w. soft_thresholding w eps) W)
              else if nntype = ''nndsvda'' then
                (let avg = tl_mean tensor
                 in Inr (map_array (\<lambda>w. if np_less w eps then avg else w) W))
              else Inl (invalid_nntype E nntype)))"

text \<open>A number of \<open>W\<close> that is not negative: a real number from 0, or \<open>NaN\<close>.\<close>

definition nn_or_nan :: "npfloat \<Rightarrow> bool" where
  "nn_or_nan e = (case e of Num x \<Rightarrow> 0 \<le> x | NaN \<Rightarrow> True)"

section \<open>The dispatcher: \<open>svd_funs\<close>\<close>






section \<open>What the collaborators return\<close>

text \<open>
  The shapes NumPy and SciPy document, and the order of the values: \<open>svd\<close> of an
  \<open>r\<close> by \<open>c\<close> matrix returns \<open>min r c\<close> singular values, non-negative and in
  non-increasing order, with square factors when \<open>full_matrices\<close> is set and
  \<open>min r c\<close> columns (rows) otherwise; \<open>eigh\<close> returns the eigenvalues in
  ascending order; \<open>eigsh\<close>, when it does not raise, returns \<open>k\<close> eigenpairs, in ascending
  order as the source relies on when it reverses them; \<open>qr\<close> is the reduced decomposition; \<open>normal\<close>
  returns an array of the size asked for.
\<close>

definition svd_returns :: "env \<Rightarrow> bool" where
  "svd_returns E = (\<forall>A full r c. is_matrix A r c \<longrightarrow>
     (case tl_svd E A full of (U, S, V) \<Rightarrow>
        is_matrix U r (if full then r else min r c) \<and> length S = min r c
        \<and> is_matrix V (if full then c else min r c) c
        \<and> sorted (rev S) \<and> list_all (\<lambda>s. 0 \<le> s) S))"

definition eigh_returns :: "env \<Rightarrow> bool" where
  "eigh_returns E = (\<forall>A n. is_matrix A n n \<longrightarrow>
     (case tl_eigh E A of (w, Q) \<Rightarrow> length w = n \<and> is_matrix Q n n \<and> sorted w))"

definition eigsh_returns :: "env \<Rightarrow> bool" where
  "eigsh_returns E = (\<forall>A n k v0. is_matrix A n n \<longrightarrow> 0 < k \<longrightarrow> k < n \<longrightarrow>
     (case sp_eigsh E A k v0 of
        Inl e \<Rightarrow> True
      | Inr (w, Q) \<Rightarrow> length w = k \<and> is_matrix Q n k \<and> sorted w))"

definition qr_returns :: "env \<Rightarrow> bool" where
  "qr_returns E = (\<forall>A m n. is_matrix A m n \<longrightarrow>
     (case tl_qr E A of (Q, R) \<Rightarrow> is_matrix Q m (min m n) \<and> is_matrix R (min m n) n))"

definition normal_returns :: "env \<Rightarrow> bool" where
  "normal_returns E = (\<forall>random_state m n. is_matrix (rng_normal E random_state m n) m n)"

definition collaborators_return :: "env \<Rightarrow> bool" where
  "collaborators_return E =
     (svd_returns E \<and> eigh_returns E \<and> eigsh_returns E \<and> qr_returns E \<and> normal_returns E)"

text \<open>A triplet \<open>(U, S, V)\<close> of rank \<open>k\<close> for a matrix of \<open>rows\<close> by \<open>cols\<close>: the shapes, and
  the singular values non-negative and in non-increasing order.\<close>

definition triplet_of_rank :: "nat \<Rightarrow> nat \<Rightarrow> nat \<Rightarrow> error + triplet \<Rightarrow> bool" where
  "triplet_of_rank rows cols k r =
     (case r of
        Inl e \<Rightarrow> False
      | Inr (U, S, V) \<Rightarrow>
          is_matrix U rows k \<and> length S = k \<and> sorted (rev S) \<and> list_all (\<lambda>s. 0 \<le> s) S
          \<and> is_matrix V k cols)"

text \<open>
  An environment for concrete runs on zero matrices: their decompositions have
  identity factors and zero values, and ARPACK fails on them, so that \<open>eigsh\<close> raises;
  with the machine epsilon of 64-bit floats and \<open>repr\<close> on strings that need no escape.
\<close>

definition eye :: "nat \<Rightarrow> nat \<Rightarrow> matrix" where
  "eye r c = mk2 r c (\<lambda>i j. if i = j then 1 else 0)"

definition zeros :: "nat \<Rightarrow> nat \<Rightarrow> matrix" where
  "zeros r c = mk2 r c (\<lambda>i j. 0)"

definition zero_env :: env where
  "zero_env = \<lparr>
     tl_svd = (\<lambda>A full. let r = nrows A; c = ncols A; k = min r c in
                 (eye r (if full then r else k), replicate k 0, eye (if full then c else k) c)),
     tl_eigh = (\<lambda>A. (replicate (nrows A) 0, eye (nrows A) (nrows A))),
     sp_eigsh = (\<lambda>A k v0. Inl ArpackError),
     tl_qr = (\<lambda>A. let m = nrows A; n = ncols A in (eye m (min m n), zeros (min m n) n)),
     rng_normal = (\<lambda>random_state m n. mk2 m n (\<lambda>i j. 1)),
     rng_uniform = (\<lambda>random_state n. replicate n 1),
     tl_eps = 1 / 2 ^ 52,
     py_repr = (\<lambda>s. [CHR 0x27] @ s @ [CHR 0x27]) \<rparr>"

text \<open>
  An environment for concrete runs on the 3 by 3 matrix with diagonal \<open>(3, 0, 0)\<close>, whose
  Gram matrix has diagonal \<open>(9, 0, 0)\<close>. Its singular values are \<open>3, 0, 0\<close> with identity
  factors. \<open>eigh\<close> of the Gram matrix returns the eigenvalues \<open>0, 0, 9\<close> with the second,
  the third and the first unit vector; \<open>eigsh\<close> for two eigenpairs returns \<open>0\<close> and \<open>9\<close> with
  the second and the first unit vector. The matrices handed to \<open>qr\<close> in these runs are
  upper triangular, with the identity as \<open>Q\<close>: the product of the matrix and the normal
  sample, the matrix itself, and in the sparse branch the first unit vector followed by a
  zero column. On every other input the environment is \<open>zero_env\<close>.
\<close>

definition diag_matrix :: matrix where
  "diag_matrix = NDArray [3, 3] [3, 0, 0,  0, 0, 0,  0, 0, 0]"

definition diag_gram :: matrix where
  "diag_gram = NDArray [3, 3] [9, 0, 0,  0, 0, 0,  0, 0, 0]"

definition diag_env :: env where
  "diag_env = zero_env \<lparr>
     tl_svd := (\<lambda>A full.
        if A = diag_matrix then (eye 3 3, [3, 0, 0], eye 3 3) else tl_svd zero_env A full),
     tl_eigh := (\<lambda>A.
        if A = diag_gram then ([0, 0, 9], NDArray [3, 3] [0, 0, 1,  1, 0, 0,  0, 1, 0])
        else tl_eigh zero_env A),
     sp_eigsh := (\<lambda>A k v0.
        if A = diag_gram \<and> k = 2 then Inr ([0, 9], NDArray [3, 2] [0, 1,  1, 0,  0, 0])
        else Inl ArpackError),
     tl_qr := (\<lambda>A.
        if A = NDArray [3, 2] [1, 0,  0, 0,  0, 0]
        then (eye 3 2, NDArray [2, 2] [1, 0,  0, 0])
        else if A = diag_matrix \<or> A = NDArray [3, 3] [3, 3, 3,  0, 0, 0,  0, 0, 0]
        then (eye 3 3, A)
        else tl_qr zero_env A) \<rparr>"

section \<open>Facts about arrays\<close>

lemma idx_lt: "i < r \<Longrightarrow> j < c \<Longrightarrow> i * c + j < r * (c::nat)"
proof -
  assume a: "i < r" "j < c"
  have "i * c + j < i * c + c" using a by simp
  also have "\<dots> = Suc i * c" by simp
  also have "\<dots> \<le> r * c" using a by (intro mult_le_mono1) simp
  finally show ?thesis .
qed

lemma nrows_mk2 [simp]: "nrows (mk2 r c f) = r"
  by (simp add: nrows_def mk2_def)

lemma ncols_mk2 [simp]: "ncols (mk2 r c f) = c"
  by (simp add: ncols_def mk2_def)

lemma ndim_mk2 [simp]: "ndim (mk2 r c f) = 2"
  by (simp add: ndim_def mk2_def)

lemma is_matrix_mk2 [simp]: "is_matrix (mk2 r c f) r' c' \<longleftrightarrow> r' = r \<and> c' = c"
  by (auto simp: is_matrix_def mk2_def)

lemma is_matrix_dims: "is_matrix A r c \<Longrightarrow> nrows A = r \<and> ncols A = c \<and> ndim A = 2"
  by (simp add: is_matrix_def nrows_def ncols_def ndim_def)

lemma entry_mk2 [simp]: "i < r \<Longrightarrow> j < c \<Longrightarrow> entry (mk2 r c f) i j = f i j"
  by (simp add: entry_def mk2_def ncols_def idx_lt)

lemma mk2_cong:
  assumes "\<And>i j. i < r \<Longrightarrow> j < c \<Longrightarrow> f i j = g i j"
  shows "mk2 r c f = mk2 r c g"
proof -
  have "f (p div c) (p mod c) = g (p div c) (p mod c)" if "p < r * c" for p
  proof -
    have c: "0 < c" using that by (cases c) auto
    have "p div c < r" using that c by (simp add: less_mult_imp_div_less)
    moreover have "p mod c < c" using c by simp
    ultimately show ?thesis by (rule assms)
  qed
  then show ?thesis by (simp add: mk2_def)
qed

lemma mk2_entry:
  assumes "is_matrix A r c"
  shows "mk2 r c (entry A) = A"
proof -
  have sh: "shape A = [r, c]" and len: "length (flat A) = r * c"
    using assms by (simp_all add: is_matrix_def)
  have nc: "ncols A = c" using sh by (simp add: ncols_def)
  have "map (\<lambda>p. entry A (p div c) (p mod c)) [0..<r * c] = flat A"
    by (rule nth_equalityI) (simp_all add: len entry_def nc)
  then show ?thesis using sh by (cases A) (simp add: mk2_def)
qed

lemma argmax_less: "xs \<noteq> [] \<Longrightarrow> argmax xs < length xs"
proof (induction xs)
  case Nil then show ?case by simp
next
  case (Cons x xs)
  show ?case
  proof (cases "list_all (\<lambda>y. y \<le> x) xs")
    case True then show ?thesis by simp
  next
    case False
    then have "xs \<noteq> []" by auto
    with Cons False show ?thesis by simp
  qed
qed

lemma argmax_greatest: "y \<in> set xs \<Longrightarrow> y \<le> xs ! argmax xs"
proof (induction xs arbitrary: y)
  case Nil then show ?case by simp
next
  case (Cons x xs)
  show ?case
  proof (cases "list_all (\<lambda>z. z \<le> x) xs")
    case True
    with Cons.prems show ?thesis by (auto simp: list_all_iff)
  next
    case False
    then obtain z where z: "z \<in> set xs" "x < z" by (auto simp: list_all_iff not_le)
    from Cons.IH [OF z(1)] z(2) have "x \<le> xs ! argmax xs" by simp
    moreover have "y \<le> xs ! argmax xs" if "y \<in> set xs" using Cons.IH that by simp
    ultimately show ?thesis using Cons.prems False by auto
  qed
qed

section \<open>Facts about \<open>svd_flip\<close>\<close>

lemma col_signs_length [simp]: "length (col_signs U) = ncols U"
  by (simp add: col_signs_def)

lemma row_signs_length [simp]: "length (row_signs V) = nrows V"
  by (simp add: row_signs_def)

lemma col_signs_nth:
  "j < ncols U \<Longrightarrow> col_signs U ! j = sgn (entry U (argmax (map abs (col U j))) j)"
  by (simp add: col_signs_def)

lemma row_signs_nth:
  "i < nrows V \<Longrightarrow> row_signs V ! i = sgn (entry V i (argmax (map abs (row V i))))"
  by (simp add: row_signs_def)

lemma sgn_flip_stable:
  fixes xs :: "real list"
  assumes "xs \<noteq> []"
  defines "s \<equiv> sgn (xs ! argmax (map abs xs))"
  defines "ys \<equiv> map (\<lambda>x. x * s) xs"
  shows "s * sgn (ys ! argmax (map abs ys)) = s"
proof (cases "s = 0")
  case True then show ?thesis by simp
next
  case False
  then have abs1: "\<bar>s\<bar> = 1" by (auto simp: s_def sgn_if split: if_splits)
  have same: "map abs ys = map abs xs"
    by (simp add: ys_def abs_mult abs1)
  have a: "argmax (map abs xs) < length xs"
    using argmax_less [of "map abs xs"] assms(1) by simp
  have "ys ! argmax (map abs ys) = ys ! argmax (map abs xs)"
    by (simp only: same)
  also have "\<dots> = xs ! argmax (map abs xs) * s"
    using a by (simp add: ys_def)
  also have "\<dots> = \<bar>xs ! argmax (map abs xs)\<bar>"
    by (simp add: s_def abs_sgn)
  finally have "sgn (ys ! argmax (map abs ys)) = 1"
    using False by (auto simp: s_def sgn_if split: if_splits)
  then show ?thesis by simp
qed

lemma col_mul_cols:
  "j < ncols U \<Longrightarrow> col (mul_cols U s) j = map (\<lambda>x. x * s ! j) (col U j)"
  by (simp add: col_def mul_cols_def)

lemma row_mul_rows:
  "i < nrows V \<Longrightarrow> row (mul_rows V s) i = map (\<lambda>x. x * s ! i) (row V i)"
  by (simp add: row_def mul_rows_def)

lemma col_signs_stable:
  assumes "nrows U \<noteq> 0" "j < ncols U"
  shows "col_signs U ! j * col_signs (mul_cols U (col_signs U)) ! j = col_signs U ! j"
proof -
  define U' where "U' = mul_cols U (col_signs U)"
  define xs where "xs = col U j"
  define t where "t = col_signs U ! j"
  define ys where "ys = map (\<lambda>x. x * t) xs"
  have ne: "xs \<noteq> []" using assms(1) by (simp add: col_def xs_def)
  have len: "length xs = nrows U" by (simp add: xs_def col_def)
  have a: "argmax (map abs xs) < nrows U"
    using argmax_less [of "map abs xs"] ne len by simp
  have t: "t = sgn (xs ! argmax (map abs xs))"
    using assms(2) a by (simp add: t_def xs_def col_signs_nth col_def)
  have c': "col U' j = ys"
    unfolding U'_def ys_def xs_def t_def using assms(2) by (rule col_mul_cols)
  have a': "argmax (map abs ys) < nrows U"
    using argmax_less [of "map abs ys"] ne len by (simp add: ys_def)
  have j': "j < ncols U'" using assms(2) by (simp add: U'_def mul_cols_def)
  have "col_signs U' ! j = sgn (entry U' (argmax (map abs (col U' j))) j)"
    using j' by (rule col_signs_nth)
  also have "\<dots> = sgn (entry U' (argmax (map abs ys)) j)"
    by (simp only: c')
  also have "entry U' (argmax (map abs ys)) j = ys ! argmax (map abs ys)"
    using a' assms(2) by (simp add: U'_def mul_cols_def ys_def xs_def col_def t_def)
  finally have "col_signs U' ! j = sgn (ys ! argmax (map abs ys))" .
  then show ?thesis
    using sgn_flip_stable [OF ne] unfolding U'_def [symmetric] t_def [symmetric]
    by (simp add: t ys_def)
qed

lemma row_signs_stable:
  assumes "ncols V \<noteq> 0" "i < nrows V"
  shows "row_signs V ! i * row_signs (mul_rows V (row_signs V)) ! i = row_signs V ! i"
proof -
  define V' where "V' = mul_rows V (row_signs V)"
  define xs where "xs = row V i"
  define t where "t = row_signs V ! i"
  define ys where "ys = map (\<lambda>x. x * t) xs"
  have ne: "xs \<noteq> []" using assms(1) by (simp add: row_def xs_def)
  have len: "length xs = ncols V" by (simp add: xs_def row_def)
  have a: "argmax (map abs xs) < ncols V"
    using argmax_less [of "map abs xs"] ne len by simp
  have t: "t = sgn (xs ! argmax (map abs xs))"
    using assms(2) a by (simp add: t_def xs_def row_signs_nth row_def)
  have c': "row V' i = ys"
    unfolding V'_def ys_def xs_def t_def using assms(2) by (rule row_mul_rows)
  have a': "argmax (map abs ys) < ncols V"
    using argmax_less [of "map abs ys"] ne len by (simp add: ys_def)
  have i': "i < nrows V'" using assms(2) by (simp add: V'_def mul_rows_def)
  have "row_signs V' ! i = sgn (entry V' i (argmax (map abs (row V' i))))"
    using i' by (rule row_signs_nth)
  also have "\<dots> = sgn (entry V' i (argmax (map abs ys)))"
    by (simp only: c')
  also have "entry V' i (argmax (map abs ys)) = ys ! argmax (map abs ys)"
    using a' assms(2) by (simp add: V'_def mul_rows_def ys_def xs_def row_def t_def)
  finally have "row_signs V' ! i = sgn (ys ! argmax (map abs ys))" .
  then show ?thesis
    using sgn_flip_stable [OF ne] unfolding V'_def [symmetric] t_def [symmetric]
    by (simp add: t ys_def)
qed

lemma pad_ones_nth:
  "length signs = k \<Longrightarrow> i < n \<Longrightarrow> pad_ones signs n k ! i = (if i < k then signs ! i else 1)"
  by (auto simp: pad_ones_def nth_append)

lemma svd_flip_u:
  "nrows U \<noteq> 0 \<Longrightarrow> svd_flip U V True =
     Inr (mul_cols U (col_signs U), mul_rows V (pad_ones (col_signs U) (nrows V) (ncols U)))"
  by (simp add: svd_flip_def Let_def pad_ones_def mul_cols_def)

lemma svd_flip_v:
  "ncols V \<noteq> 0 \<Longrightarrow> svd_flip U V False =
     Inr (mul_cols U (pad_ones (row_signs V) (ncols U) (nrows V)), mul_rows V (row_signs V))"
  by (simp add: svd_flip_def Let_def pad_ones_def mul_rows_def)

lemma svd_flip_idem_u:
  fixes U V :: matrix
  assumes "nrows U \<noteq> 0"
  defines "U' \<equiv> mul_cols U (col_signs U)"
  defines "V' \<equiv> mul_rows V (pad_ones (col_signs U) (nrows V) (ncols U))"
  shows "svd_flip U' V' True = Inr (U', V')"
proof -
  have r: "nrows U' = nrows U" and k: "ncols U' = ncols U"
    and k': "nrows V' = nrows V" and c: "ncols V' = ncols V"
    by (simp_all add: U'_def V'_def mul_cols_def mul_rows_def)
  have st: "col_signs U ! j * col_signs U' ! j = col_signs U ! j" if "j < ncols U" for j
    unfolding U'_def using assms(1) that by (rule col_signs_stable)
  have "mul_cols U' (col_signs U') = U'"
  proof -
    have "mul_cols U' (col_signs U')
            = mk2 (nrows U) (ncols U) (\<lambda>i j. entry U' i j * col_signs U' ! j)"
      by (simp add: mul_cols_def r k)
    also have "\<dots> = mk2 (nrows U) (ncols U) (\<lambda>i j. entry U i j * col_signs U ! j)"
    proof (rule mk2_cong)
      fix i j assume "i < nrows U" "j < ncols U"
      then show "entry U' i j * col_signs U' ! j = entry U i j * col_signs U ! j"
        using st [of j] by (simp add: U'_def mul_cols_def mult.assoc)
    qed
    finally show ?thesis by (simp add: U'_def mul_cols_def)
  qed
  moreover have "mul_rows V' (pad_ones (col_signs U') (nrows V') (ncols U')) = V'"
  proof -
    have "mul_rows V' (pad_ones (col_signs U') (nrows V') (ncols U'))
            = mk2 (nrows V) (ncols V)
                (\<lambda>i j. entry V' i j * pad_ones (col_signs U') (nrows V) (ncols U) ! i)"
      by (simp add: mul_rows_def r k k' c)
    also have "\<dots> = mk2 (nrows V) (ncols V)
                (\<lambda>i j. entry V i j * pad_ones (col_signs U) (nrows V) (ncols U) ! i)"
    proof (rule mk2_cong)
      fix i j assume ij: "i < nrows V" "j < ncols V"
      have "pad_ones (col_signs U) (nrows V) (ncols U) ! i
              * pad_ones (col_signs U') (nrows V) (ncols U) ! i
            = pad_ones (col_signs U) (nrows V) (ncols U) ! i"
        using ij(1) st [of i] by (simp add: pad_ones_nth k)
      then show "entry V' i j * pad_ones (col_signs U') (nrows V) (ncols U) ! i
                   = entry V i j * pad_ones (col_signs U) (nrows V) (ncols U) ! i"
        using ij by (simp add: V'_def mul_rows_def mult.assoc)
    qed
    finally show ?thesis by (simp add: V'_def mul_rows_def)
  qed
  ultimately show ?thesis
    using assms(1) svd_flip_u [of U' V'] by (simp add: r)
qed

lemma svd_flip_idem_v:
  fixes U V :: matrix
  assumes "ncols V \<noteq> 0"
  defines "V' \<equiv> mul_rows V (row_signs V)"
  defines "U' \<equiv> mul_cols U (pad_ones (row_signs V) (ncols U) (nrows V))"
  shows "svd_flip U' V' False = Inr (U', V')"
proof -
  have r: "nrows U' = nrows U" and k: "ncols U' = ncols U"
    and k': "nrows V' = nrows V" and c: "ncols V' = ncols V"
    by (simp_all add: U'_def V'_def mul_cols_def mul_rows_def)
  have st: "row_signs V ! i * row_signs V' ! i = row_signs V ! i" if "i < nrows V" for i
    unfolding V'_def using assms(1) that by (rule row_signs_stable)
  have "mul_rows V' (row_signs V') = V'"
  proof -
    have "mul_rows V' (row_signs V')
            = mk2 (nrows V) (ncols V) (\<lambda>i j. entry V' i j * row_signs V' ! i)"
      by (simp add: mul_rows_def k' c)
    also have "\<dots> = mk2 (nrows V) (ncols V) (\<lambda>i j. entry V i j * row_signs V ! i)"
    proof (rule mk2_cong)
      fix i j assume "i < nrows V" "j < ncols V"
      then show "entry V' i j * row_signs V' ! i = entry V i j * row_signs V ! i"
        using st [of i] by (simp add: V'_def mul_rows_def mult.assoc)
    qed
    finally show ?thesis by (simp add: V'_def mul_rows_def)
  qed
  moreover have "mul_cols U' (pad_ones (row_signs V') (ncols U') (nrows V')) = U'"
  proof -
    have "mul_cols U' (pad_ones (row_signs V') (ncols U') (nrows V'))
            = mk2 (nrows U) (ncols U)
                (\<lambda>i j. entry U' i j * pad_ones (row_signs V') (ncols U) (nrows V) ! j)"
      by (simp add: mul_cols_def r k k' c)
    also have "\<dots> = mk2 (nrows U) (ncols U)
                (\<lambda>i j. entry U i j * pad_ones (row_signs V) (ncols U) (nrows V) ! j)"
    proof (rule mk2_cong)
      fix i j assume ij: "i < nrows U" "j < ncols U"
      have "pad_ones (row_signs V) (ncols U) (nrows V) ! j
              * pad_ones (row_signs V') (ncols U) (nrows V) ! j
            = pad_ones (row_signs V) (ncols U) (nrows V) ! j"
        using ij(2) st [of j] by (simp add: pad_ones_nth k')
      then show "entry U' i j * pad_ones (row_signs V') (ncols U) (nrows V) ! j
                   = entry U i j * pad_ones (row_signs V) (ncols U) (nrows V) ! j"
        using ij by (simp add: U'_def mul_cols_def mult.assoc)
    qed
    finally show ?thesis by (simp add: U'_def mul_cols_def)
  qed
  ultimately show ?thesis
    using assms(1) svd_flip_v [of V' U'] by (simp add: c)
qed

lemma sgn_pm1: "(x::real) \<noteq> 0 \<Longrightarrow> sgn x = 1 \<or> sgn x = -1"
  by (auto simp: sgn_if)

lemma argmax_abs_nonzero:
  fixes xs :: "real list"
  assumes "list_ex (\<lambda>x. x \<noteq> 0) xs"
  shows "xs ! argmax (map abs xs) \<noteq> 0"
proof -
  from assms obtain x where x: "x \<in> set xs" "x \<noteq> 0" by (auto simp: list_ex_iff)
  then have ne: "xs \<noteq> []" by auto
  have "\<bar>x\<bar> \<in> set (map abs xs)" using x(1) by simp
  then have "\<bar>x\<bar> \<le> map abs xs ! argmax (map abs xs)" by (rule argmax_greatest)
  moreover have "argmax (map abs xs) < length xs"
    using argmax_less [of "map abs xs"] ne by simp
  ultimately have "\<bar>x\<bar> \<le> \<bar>xs ! argmax (map abs xs)\<bar>" by simp
  with x(2) show ?thesis by auto
qed

lemma col_signs_pm1:
  assumes "nonzero_cols U" "x \<in> set (col_signs U)"
  shows "x = 1 \<or> x = -1"
proof -
  from assms(2) obtain j where j: "j < ncols U" "x = col_signs U ! j"
    by (auto simp: in_set_conv_nth)
  have ex: "list_ex (\<lambda>x. x \<noteq> 0) (col U j)"
    using assms(1) j(1) by (simp add: nonzero_cols_def list_all_iff)
  then have "col U j \<noteq> []" by auto
  then have "argmax (map abs (col U j)) < nrows U"
    using argmax_less [of "map abs (col U j)"] by (simp add: col_def)
  then have "entry U (argmax (map abs (col U j))) j = col U j ! argmax (map abs (col U j))"
    by (simp add: col_def)
  with argmax_abs_nonzero [OF ex] have "entry U (argmax (map abs (col U j))) j \<noteq> 0" by simp
  then show ?thesis using j by (simp add: col_signs_nth sgn_pm1)
qed

lemma row_signs_pm1:
  assumes "nonzero_rows V" "x \<in> set (row_signs V)"
  shows "x = 1 \<or> x = -1"
proof -
  from assms(2) obtain i where i: "i < nrows V" "x = row_signs V ! i"
    by (auto simp: in_set_conv_nth)
  have ex: "list_ex (\<lambda>x. x \<noteq> 0) (row V i)"
    using assms(1) i(1) by (simp add: nonzero_rows_def list_all_iff)
  then have "row V i \<noteq> []" by auto
  then have "argmax (map abs (row V i)) < ncols V"
    using argmax_less [of "map abs (row V i)"] by (simp add: row_def)
  then have "entry V i (argmax (map abs (row V i))) = row V i ! argmax (map abs (row V i))"
    by (simp add: row_def)
  with argmax_abs_nonzero [OF ex] have "entry V i (argmax (map abs (row V i))) \<noteq> 0" by simp
  then show ?thesis using i by (simp add: row_signs_nth sgn_pm1)
qed

text \<open>
  Claim C4. \<open>svd_flip\<close> is idempotent: whenever it returns a pair, applying it again to
  that pair, with the same \<open>u_based_decision\<close>, returns the pair unchanged.
\<close>

theorem svd_flip_idempotent:
  assumes "svd_flip U V u_based_decision = Inr (U', V')"
  shows "svd_flip U' V' u_based_decision = Inr (U', V')"
proof (cases u_based_decision)
  case True
  with assms have ne: "nrows U \<noteq> 0"
    by (auto simp: svd_flip_def split: if_splits)
  with assms True have "U' = mul_cols U (col_signs U)"
    "V' = mul_rows V (pad_ones (col_signs U) (nrows V) (ncols U))"
    by (simp_all add: svd_flip_u)
  with svd_flip_idem_u [OF ne, of V] True show ?thesis by simp
next
  case False
  with assms have ne: "ncols V \<noteq> 0"
    by (auto simp: svd_flip_def split: if_splits)
  with assms False have "V' = mul_rows V (row_signs V)"
    "U' = mul_cols U (pad_ones (row_signs V) (ncols U) (nrows V))"
    by (simp_all add: svd_flip_v)
  with svd_flip_idem_v [OF ne, of U] False show ?thesis by simp
qed

theorem svd_flip_idempotent_witness:
  "svd_flip (NDArray [2, 2] [1, - 3, 2, 1]) (NDArray [3, 2] [1, 2, 3, 4, 5, 6]) True
     = Inr (NDArray [2, 2] [1, 3, 2, - 1], NDArray [3, 2] [1, 2, - 3, - 4, 5, 6])
   \<and> svd_flip (NDArray [2, 2] [1, 3, 2, - 1]) (NDArray [3, 2] [1, 2, - 3, - 4, 5, 6]) True
     = Inr (NDArray [2, 2] [1, 3, 2, - 1], NDArray [3, 2] [1, 2, - 3, - 4, 5, 6])"
proof -
  have h: "svd_flip (NDArray [2, 2] [1, - 3, 2, 1]) (NDArray [3, 2] [1, 2, 3, 4, 5, 6]) True
     = Inr (NDArray [2, 2] [1, 3, 2, - 1], NDArray [3, 2] [1, 2, - 3, - 4, 5, 6])"
    by code_simp
  from svd_flip_idempotent [OF h] h show ?thesis by simp
qed

text \<open>
  Claim C5 as stated fails: the claim has the extra components of the larger array
  returned unchanged, but the array the decision is based on has every one of its
  components multiplied by its own sign, also those beyond the other array's count.
  With \<open>u_based_decision\<close>, \<open>U = [[1, -1]]\<close> has two columns and \<open>V = [[1]]\<close> one row; the
  second column of \<open>U\<close> is flipped.
\<close>

theorem svd_flip_extra_component_counterexample:
  "svd_flip (NDArray [1, 2] [1, - 1]) (NDArray [1, 1] [1]) True
     = Inr (NDArray [1, 2] [1, 1], NDArray [1, 1] [1])
   \<and> ncols (NDArray [1, 2] [1, - 1 :: real]) > nrows (NDArray [1, 1] [1 :: real])
   \<and> col (NDArray [1, 2] [1, 1 :: real]) 1 \<noteq> col (NDArray [1, 2] [1, - 1]) 1"
  by code_simp

text \<open>
  The sign of 0 is 0: a column of \<open>U\<close> that is entirely 0 sets the matching row of \<open>V\<close>
  to 0, which is no multiplication by 1 or -1.
\<close>

lemma svd_flip_zero_column:
  "svd_flip (NDArray [1, 1] [0]) (NDArray [1, 1] [1]) True
     = Inr (NDArray [1, 1] [0], NDArray [1, 1] [0])"
  by code_simp

text \<open>
  Claim C5, amended. When \<open>svd_flip\<close> returns and every column of \<open>U\<close> (every row of
  \<open>V\<close>, when the decision is not based on \<open>U\<close>) has an entry other than 0, there is a
  vector \<open>s\<close> of factors 1 or -1, one per column of \<open>U\<close> (per row of \<open>V\<close>), such that the
  results have the shapes of the inputs, column \<open>j\<close> of \<open>U\<close> and row \<open>j\<close> of \<open>V\<close> are
  multiplied by \<open>s ! j\<close>, and the components of the other array beyond the length of \<open>s\<close>
  are returned unchanged.
\<close>

theorem svd_flip_sign_factors:
  assumes "svd_flip U V u_based_decision = Inr (U', V')"
    and "if u_based_decision then nonzero_cols U else nonzero_rows V"
  shows "\<exists>s. length s = (if u_based_decision then ncols U else nrows V)
           \<and> (\<forall>x\<in>set s. x = 1 \<or> x = -1)
           \<and> is_matrix U' (nrows U) (ncols U) \<and> is_matrix V' (nrows V) (ncols V)
           \<and> (\<forall>i<nrows U. \<forall>j<ncols U.
                 entry U' i j = entry U i j * (if j < length s then s ! j else 1))
           \<and> (\<forall>i<nrows V. \<forall>j<ncols V.
                 entry V' i j = entry V i j * (if i < length s then s ! i else 1))"
proof (cases u_based_decision)
  case True
  with assms(1) have ne: "nrows U \<noteq> 0"
    by (auto simp: svd_flip_def split: if_splits)
  with assms(1) True have U': "U' = mul_cols U (col_signs U)"
    and V': "V' = mul_rows V (pad_ones (col_signs U) (nrows V) (ncols U))"
    by (simp_all add: svd_flip_u)
  have pm: "\<forall>x\<in>set (col_signs U). x = 1 \<or> x = -1"
    using assms(2) True col_signs_pm1 by auto
  show ?thesis
    apply (rule exI [of _ "col_signs U"])
    using True pm by (simp add: U' V' mul_cols_def mul_rows_def pad_ones_nth)
next
  case False
  with assms(1) have ne: "ncols V \<noteq> 0"
    by (auto simp: svd_flip_def split: if_splits)
  with assms(1) False have V': "V' = mul_rows V (row_signs V)"
    and U': "U' = mul_cols U (pad_ones (row_signs V) (ncols U) (nrows V))"
    by (simp_all add: svd_flip_v)
  have pm: "\<forall>x\<in>set (row_signs V). x = 1 \<or> x = -1"
    using assms(2) False row_signs_pm1 by auto
  show ?thesis
    apply (rule exI [of _ "row_signs V"])
    using False pm by (simp add: U' V' mul_cols_def mul_rows_def pad_ones_nth)
qed

theorem svd_flip_sign_factors_witness:
  "svd_flip (NDArray [1, 1] [- 2]) (NDArray [2, 1] [3, 4]) True
     = Inr (NDArray [1, 1] [2], NDArray [2, 1] [- 3, 4])
   \<and> nonzero_cols (NDArray [1, 1] [- 2])
   \<and> (\<exists>s. length s = ncols (NDArray [1, 1] [- 2 :: real])
        \<and> (\<forall>x\<in>set s. x = 1 \<or> x = -1)
        \<and> is_matrix (NDArray [1, 1] [2 :: real])
             (nrows (NDArray [1, 1] [- 2 :: real])) (ncols (NDArray [1, 1] [- 2 :: real]))
        \<and> is_matrix (NDArray [2, 1] [- 3, 4 :: real])
             (nrows (NDArray [2, 1] [3, 4 :: real])) (ncols (NDArray [2, 1] [3, 4 :: real]))
        \<and> (\<forall>i<nrows (NDArray [1, 1] [- 2 :: real]). \<forall>j<ncols (NDArray [1, 1] [- 2 :: real]).
              entry (NDArray [1, 1] [2 :: real]) i j
                = entry (NDArray [1, 1] [- 2]) i j * (if j < length s then s ! j else 1))
        \<and> (\<forall>i<nrows (NDArray [2, 1] [3, 4 :: real]). \<forall>j<ncols (NDArray [2, 1] [3, 4 :: real]).
              entry (NDArray [2, 1] [- 3, 4 :: real]) i j
                = entry (NDArray [2, 1] [3, 4]) i j * (if i < length s then s ! i else 1)))"
proof -
  have h: "svd_flip (NDArray [1, 1] [- 2]) (NDArray [2, 1] [3, 4]) True
     = Inr (NDArray [1, 1] [2], NDArray [2, 1] [- 3, 4])"
    by code_simp
  have n: "nonzero_cols (NDArray [1, 1] [- 2])"
    by code_simp
  have n': "if True then nonzero_cols (NDArray [1, 1] [- 2])
        else nonzero_rows (NDArray [2, 1] [3, 4])"
    using n by simp
  have c: "\<exists>s. length s = ncols (NDArray [1, 1] [- 2 :: real])
        \<and> (\<forall>x\<in>set s. x = 1 \<or> x = -1)
        \<and> is_matrix (NDArray [1, 1] [2 :: real])
             (nrows (NDArray [1, 1] [- 2 :: real])) (ncols (NDArray [1, 1] [- 2 :: real]))
        \<and> is_matrix (NDArray [2, 1] [- 3, 4 :: real])
             (nrows (NDArray [2, 1] [3, 4 :: real])) (ncols (NDArray [2, 1] [3, 4 :: real]))
        \<and> (\<forall>i<nrows (NDArray [1, 1] [- 2 :: real]). \<forall>j<ncols (NDArray [1, 1] [- 2 :: real]).
              entry (NDArray [1, 1] [2 :: real]) i j
                = entry (NDArray [1, 1] [- 2]) i j * (if j < length s then s ! j else 1))
        \<and> (\<forall>i<nrows (NDArray [2, 1] [3, 4 :: real]). \<forall>j<ncols (NDArray [2, 1] [3, 4 :: real]).
              entry (NDArray [2, 1] [- 3, 4 :: real]) i j
                = entry (NDArray [2, 1] [3, 4]) i j * (if i < length s then s ! i else 1))"
    using svd_flip_sign_factors [OF h n'] by (simp only: if_True)
  show ?thesis by (intro conjI h n c)
qed

lemma and_then_Inr [simp]: "and_then (Inr x) f = f x"
  by (simp add: and_then_def)

lemma and_then_Inl [simp]: "and_then (Inl e) f = Inl e"
  by (simp add: and_then_def)

lemma and_then_eq_Inr:
  "and_then m f = Inr y \<longleftrightarrow> (\<exists>x. m = Inr x \<and> f x = Inr y)"
  by (cases m) simp_all

section \<open>The strategies: input validation and singular values\<close>

text \<open>
  Claim C3. Each of the four strategies, given an array that is not two-dimensional,
  raises the \<open>ValueError\<close> of its first statement: the result is that error whatever
  the environment returns and whatever the other arguments are, and no warning has been
  emitted, so nothing was computed before it.
\<close>

theorem strategies_reject_non_matrix:
  assumes "ndim matrix \<noteq> 2"
  shows "partial_svd E is_numpy matrix n_eigenvecs random_state
           = ([], Inl (not_a_matrix (ndim matrix)))
       \<and> truncated_svd E matrix n_eigenvecs = ([], Inl (not_a_matrix (ndim matrix)))
       \<and> symeig_svd E matrix n_eigenvecs = ([], Inl (not_a_matrix (ndim matrix)))
       \<and> randomized_svd E matrix n_eigenvecs n_oversamples n_iter random_state
           = ([], Inl (not_a_matrix (ndim matrix)))
       \<and> (\<exists>msg. not_a_matrix (ndim matrix) = ValueError msg)"
  using assms
  by (simp add: partial_svd_def truncated_svd_def symeig_svd_def randomized_svd_def
        not_a_matrix_def)

theorem strategies_reject_non_matrix_witness:
  "ndim (NDArray [1, 1, 2] [1, 2 :: real]) \<noteq> 2
   \<and> partial_svd zero_env True (NDArray [1, 1, 2] [1, 2]) (Some 1) None
        = ([], Inl (ValueError ''matrix be a matrix. matrix.ndim is 3 != 2''))
   \<and> truncated_svd zero_env (NDArray [1, 1, 2] [1, 2]) (Some 1)
        = ([], Inl (ValueError ''matrix be a matrix. matrix.ndim is 3 != 2''))
   \<and> symeig_svd zero_env (NDArray [1, 1, 2] [1, 2]) (Some 1)
        = ([], Inl (ValueError ''matrix be a matrix. matrix.ndim is 3 != 2''))
   \<and> randomized_svd zero_env (NDArray [1, 1, 2] [1, 2]) (Some 1) 5 2 None
        = ([], Inl (ValueError ''matrix be a matrix. matrix.ndim is 3 != 2''))"
proof -
  have n: "ndim (NDArray [1, 1, 2] [1, 2 :: real]) \<noteq> 2" by (simp add: ndim_def)
  have m: "not_a_matrix (ndim (NDArray [1, 1, 2] [1, 2 :: real]))
             = ValueError ''matrix be a matrix. matrix.ndim is 3 != 2''"
    by code_simp
  from strategies_reject_non_matrix [OF n, of zero_env True "Some 1" None 5 2] n
  show ?thesis unfolding m by simp
qed

lemma sparse_singular_values_ge: "s \<in> set (sparse_singular_values E w) \<Longrightarrow> tl_eps E \<le> s"
  by (auto simp: sparse_singular_values_def clip_min_def)

lemma partial_svd_sparse_values:
  assumes "partial_svd_sparse E matrix n random_state = Inr (U, S, V)"
  shows "\<exists>w. S = rev (sparse_singular_values E w)"
  using assms unfolding partial_svd_sparse_def Let_def case_prod_beta
  by (auto simp: and_then_eq_Inr split: if_splits)

text \<open>
  Claim C10. In the sparse branch of \<open>partial_svd\<close>, taken for a rank
  \<open>0 < n_eigenvecs < min(rows, cols)\<close>, every singular value returned is at least the
  machine epsilon: the clamp of line 223 (240) is kept in the values returned. With a
  positive epsilon no singular value returned is 0.
\<close>

theorem partial_svd_sparse_singular_values_ge_eps:
  assumes "ndim matrix = 2"
    and "0 < n_eigenvecs" "n_eigenvecs < min (nrows matrix) (ncols matrix)"
    and "partial_svd E is_numpy matrix (Some n_eigenvecs) random_state = (w, Inr (U, S, V))"
  shows "\<forall>s\<in>set S. tl_eps E \<le> s \<and> (0 < tl_eps E \<longrightarrow> 0 < s)"
proof -
  have "\<not> min (nrows matrix) (ncols matrix) \<le> n_eigenvecs" using assms(3) by linarith
  with assms(1,4) have "partial_svd_sparse E matrix n_eigenvecs random_state = Inr (U, S, V)"
    by (simp add: partial_svd_def Let_def)
  then obtain ev where "S = rev (sparse_singular_values E ev)"
    using partial_svd_sparse_values by blast
  then have "tl_eps E \<le> s" if "s \<in> set S" for s
    using sparse_singular_values_ge [of s E ev] that by simp
  then show ?thesis by force
qed

lemma symeig_factors_values:
  assumes "symeig_factors E matrix = Inr (U, S, V)"
  shows "\<exists>w. S = rev (symeig_singular_values E w)"
  using assms unfolding symeig_factors_def Let_def case_prod_beta
  by (auto simp: and_then_eq_Inr split: if_splits)

lemma symeig_singular_values_ge:
  assumes "0 < tl_eps E" "s \<in> set (symeig_singular_values E w)"
  shows "sqrt (tl_eps E) \<le> s"
  using assms by (auto simp: symeig_singular_values_def clip_min_def)

text \<open>
  Claim C9, amended. In \<open>symeig_svd\<close> the eigenvalues of the Gram matrix are clipped at
  the machine epsilon (not at 0) before the square root is taken: with a positive
  epsilon every clipped value is positive, so no square root of a negative number is
  taken, and every singular value returned is at least the square root of the epsilon.
\<close>

theorem symeig_svd_clips_at_eps:
  assumes "0 < tl_eps E"
  shows "symeig_singular_values E w = map (\<lambda>x. sqrt (max (tl_eps E) x)) w
       \<and> (\<forall>x\<in>set (clip_min (tl_eps E) w). 0 < x)
       \<and> (\<forall>wn U S V. symeig_svd E matrix n_eigenvecs = (wn, Inr (U, S, V))
             \<longrightarrow> (\<forall>s\<in>set S. sqrt (tl_eps E) \<le> s \<and> 0 < s))"
proof -
  have 1: "symeig_singular_values E w = map (\<lambda>x. sqrt (max (tl_eps E) x)) w"
    by (simp add: symeig_singular_values_def clip_min_def)
  have 2: "\<forall>x\<in>set (clip_min (tl_eps E) w). 0 < x"
    using assms by (auto simp: clip_min_def)
  have 3: "\<forall>s\<in>set S. sqrt (tl_eps E) \<le> s \<and> 0 < s"
    if "symeig_svd E matrix n_eigenvecs = (wn, Inr (U, S, V))" for wn U S V
  proof -
    from that obtain Uf Sf Vf k where f: "symeig_factors E matrix = Inr (Uf, Sf, Vf)"
      and S: "S = take k Sf"
      unfolding symeig_svd_def Let_def case_prod_beta
      by (auto simp: and_then_eq_Inr split: if_splits)
    from symeig_factors_values [OF f] obtain ev where "Sf = rev (symeig_singular_values E ev)"
      by blast
    then have ge: "sqrt (tl_eps E) \<le> s" if "s \<in> set S" for s
      using symeig_singular_values_ge [OF assms, of s ev] that S
      by (auto dest: in_set_takeD)
    have pos: "0 < sqrt (tl_eps E)" using assms by simp
    show ?thesis
    proof
      fix s assume "s \<in> set S"
      from ge [OF this] pos show "sqrt (tl_eps E) \<le> s \<and> 0 < s" by linarith
    qed
  qed
  show ?thesis using 1 2 3 by blast
qed

section \<open>Facts about \<open>make_svd_non_negative\<close>\<close>

lemma flat_mk2_all:
  assumes "\<And>i j. i < r \<Longrightarrow> j < c \<Longrightarrow> P (f i j)"
  shows "list_all P (flat (mk2 r c f))"
proof -
  have "P (f (p div c) (p mod c))" if "p < r * c" for p
  proof -
    have c: "0 < c" using that by (cases c) auto
    have "p div c < r" using that c by (simp add: less_mult_imp_div_less)
    moreover have "p mod c < c" using c by simp
    ultimately show ?thesis by (rule assms)
  qed
  then show ?thesis by (simp add: mk2_def list_all_iff)
qed

lemma entry_all:
  assumes "is_matrix W r c" "list_all P (flat W)" "i < r" "j < c"
  shows "P (entry W i j)"
proof -
  have "i * c + j < length (flat W)"
    using assms(1,3,4) by (simp add: is_matrix_def idx_lt)
  then have "flat W ! (i * c + j) \<in> set (flat W)" by (rule nth_mem)
  moreover have "ncols W = c" using assms(1) by (simp add: is_matrix_dims)
  ultimately show ?thesis using assms(2) by (simp add: entry_def list_all_iff)
qed

lemma set_col_all:
  assumes "is_matrix W r c" "list_all P (flat W)" "length cl = r" "list_all P cl"
  shows "is_matrix (set_col W j cl) r c \<and> list_all P (flat (set_col W j cl))"
proof -
  have d: "nrows W = r" "ncols W = c" using assms(1) by (simp_all add: is_matrix_dims)
  have "list_all P (flat (mk2 r c (\<lambda>i j'. if j' = j then cl ! i else entry W i j')))"
  proof (rule flat_mk2_all)
    fix i j' assume ij: "i < r" "j' < c"
    show "P (if j' = j then cl ! i else entry W i j')"
      using ij assms entry_all [OF assms(1,2) ij] by (auto simp: list_all_length)
  qed
  then show ?thesis by (simp add: set_col_def d)
qed

lemma norm2_nonneg: "0 \<le> norm2 xs"
  by (auto simp: norm2_def intro!: sum_list_nonneg)

lemma np_sqrt_nn: "nn_or_nan (np_sqrt t)"
  by (simp add: np_sqrt_def nn_or_nan_def)

lemma np_div_nn: "0 \<le> a \<Longrightarrow> 0 \<le> d \<Longrightarrow> nn_or_nan (np_div a d)"
  by (simp add: np_div_def nn_or_nan_def)

lemma np_mul_nn: "nn_or_nan a \<Longrightarrow> nn_or_nan b \<Longrightarrow> nn_or_nan (np_mul a b)"
  by (cases a; cases b) (simp_all add: nn_or_nan_def)

lemma nndsvd_first_all:
  assumes "nndsvd_first U S V = Inr W"
  shows "is_matrix W (nrows U) (ncols U) \<and> list_all nn_or_nan (flat W)"
proof -
  let ?W0 = "mk2 (nrows U) (ncols U) (\<lambda>i j. Num 0)"
  let ?c = "map (\<lambda>a. np_mul (np_sqrt (S ! 0)) (Num \<bar>a\<bar>)) (col U 0)"
  have W: "W = set_col ?W0 0 ?c"
    using assms by (auto simp: nndsvd_first_def Let_def split: if_splits)
  have 1: "is_matrix ?W0 (nrows U) (ncols U)" by simp
  have 2: "list_all nn_or_nan (flat ?W0)"
    by (rule flat_mk2_all) (simp add: nn_or_nan_def)
  have 3: "length ?c = nrows U" by (simp add: col_def)
  have 4: "list_all nn_or_nan ?c"
    by (auto simp: list_all_iff intro!: np_mul_nn np_sqrt_nn) (simp add: nn_or_nan_def)
  show ?thesis unfolding W using 1 2 3 4 by (rule set_col_all)
qed

lemma nndsvd_column_all:
  assumes "nndsvd_column U S V j = Inr cl"
  shows "length cl = nrows U \<and> list_all nn_or_nan cl"
proof -
  define x where "x = col U j"
  define y where "y = row V j"
  define x_p where "x_p = map (max 0) x"
  define x_n where "x_n = map (\<lambda>a. \<bar>min 0 a\<bar>) x"
  define m_p where "m_p = norm2 x_p * norm2 (map (max 0) y)"
  define m_n where "m_n = norm2 x_n * norm2 (map (\<lambda>a. \<bar>min 0 a\<bar>) y)"
  define u where "u = (if m_p > m_n then map (\<lambda>a. np_div a (norm2 x_p)) x_p
                       else map (\<lambda>a. np_div a (norm2 x_n)) x_n)"
  define sigma where "sigma = (if m_p > m_n then m_p else m_n)"
  have cl: "cl = map (np_mul (np_sqrt (S ! j * sigma))) u"
    using assms unfolding nndsvd_column_def Let_def u_def sigma_def m_p_def m_n_def
      x_p_def x_n_def x_def y_def
    by (auto split: if_splits)
  have len: "length u = nrows U"
    by (simp add: u_def x_p_def x_n_def x_def col_def)
  have "list_all nn_or_nan u"
    by (auto simp: u_def x_p_def x_n_def list_all_iff intro!: np_div_nn norm2_nonneg)
  then have "list_all nn_or_nan cl"
    unfolding cl by (auto simp: list_all_iff intro!: np_mul_nn np_sqrt_nn)
  then show ?thesis using len by (simp add: cl)
qed

lemma nndsvd_loop_all:
  assumes "nndsvd_loop U S V js W = Inr W'"
    and "is_matrix W (nrows U) c" "list_all nn_or_nan (flat W)"
  shows "is_matrix W' (nrows U) c \<and> list_all nn_or_nan (flat W')"
  using assms
proof (induction js arbitrary: W)
  case Nil
  then show ?case by simp
next
  case (Cons j js)
  from Cons.prems(1) obtain cl where cl: "nndsvd_column U S V j = Inr cl"
    and rest: "nndsvd_loop U S V js (set_col W j cl) = Inr W'"
    by (auto split: sum.splits)
  from nndsvd_column_all [OF cl] have "length cl = nrows U" "list_all nn_or_nan cl" by simp_all
  with set_col_all [OF Cons.prems(2,3)]
  have "is_matrix (set_col W j cl) (nrows U) c" "list_all nn_or_nan (flat (set_col W j cl))"
    by simp_all
  with Cons.IH [OF rest] show ?case by simp
qed

lemma nndsvd_filled:
  assumes "make_svd_non_negative E tensor U S V nntype = Inr W"
  obtains W1 where "is_matrix W1 (nrows U) (ncols U)" "list_all nn_or_nan (flat W1)"
    "nntype = ''nndsvd'' \<Longrightarrow> W = map_array (\<lambda>w. soft_thresholding w (tl_eps E)) W1"
    "nntype = ''nndsvda'' \<Longrightarrow> W = map_array (\<lambda>w. if np_less w (tl_eps E) then tl_mean tensor else w) W1"
    "nntype = ''nndsvd'' \<or> nntype = ''nndsvda''"
proof -
  from assms obtain W0 W1 where W0: "nndsvd_first U S V = Inr W0"
    and W1: "nndsvd_loop U S V [1..<ncols U] W0 = Inr W1"
    by (auto simp: make_svd_non_negative_def split: sum.splits)
  from nndsvd_first_all [OF W0]
  have "is_matrix W0 (nrows U) (ncols U)" "list_all nn_or_nan (flat W0)" by simp_all
  from nndsvd_loop_all [OF W1 this]
  have inv: "is_matrix W1 (nrows U) (ncols U)" "list_all nn_or_nan (flat W1)" by simp_all
  show thesis
    apply (rule that [OF inv])
    using assms W0 W1 by (auto simp: make_svd_non_negative_def Let_def split: if_splits)
qed

lemma is_matrix_map_array [simp]: "is_matrix (map_array g A) r c = is_matrix A r c"
  by (simp add: is_matrix_def map_array_def)

lemma soft_thresholding_nn: "nn_or_nan w \<Longrightarrow> nn_or_nan (soft_thresholding w t)"
  by (cases w) (simp_all add: nn_or_nan_def sgn_if)

text \<open>
  Claim C6, amended. When \<open>make_svd_non_negative\<close> returns \<open>W\<close>, it has the shape of \<open>U\<close>;
  with \<open>nndsvd\<close> every entry of \<open>W\<close> is at least 0 or \<open>NaN\<close>; with \<open>nndsvda\<close> every entry
  is \<open>NaN\<close>, or at least the machine epsilon, or the mean of the tensor (so the entries
  that are numbers are at least 0 when the mean of the tensor is).
\<close>

theorem make_svd_non_negative_entries:
  assumes "make_svd_non_negative E tensor U S V nntype = Inr W"
  shows "is_matrix W (nrows U) (ncols U)
       \<and> (nntype = ''nndsvd'' \<longrightarrow> (\<forall>e\<in>set (flat W). e = NaN \<or> (\<exists>x\<ge>0. e = Num x)))
       \<and> (nntype = ''nndsvda'' \<longrightarrow>
            (\<forall>e\<in>set (flat W). e = NaN \<or> (\<exists>x\<ge>tl_eps E. e = Num x) \<or> e = tl_mean tensor))"
proof -
  from nndsvd_filled [OF assms] obtain W1 where
    m: "is_matrix W1 (nrows U) (ncols U)" and nn: "list_all nn_or_nan (flat W1)"
    and a: "nntype = ''nndsvd'' \<Longrightarrow> W = map_array (\<lambda>w. soft_thresholding w (tl_eps E)) W1"
    and b: "nntype = ''nndsvda'' \<Longrightarrow>
              W = map_array (\<lambda>w. if np_less w (tl_eps E) then tl_mean tensor else w) W1"
    and c: "nntype = ''nndsvd'' \<or> nntype = ''nndsvda''"
    by blast
  have shape: "is_matrix W (nrows U) (ncols U)"
    using a b c m by auto
  have soft: "e = NaN \<or> (\<exists>x\<ge>0. e = Num x)"
    if "nntype = ''nndsvd''" "e \<in> set (flat W)" for e
  proof -
    from that a obtain w where w: "w \<in> set (flat W1)" "e = soft_thresholding w (tl_eps E)"
      by (auto simp: map_array_def)
    with nn have "nn_or_nan e" by (auto simp: list_all_iff intro: soft_thresholding_nn)
    then show ?thesis by (cases e) (simp_all add: nn_or_nan_def)
  qed
  have fill: "e = NaN \<or> (\<exists>x\<ge>tl_eps E. e = Num x) \<or> e = tl_mean tensor"
    if "nntype = ''nndsvda''" "e \<in> set (flat W)" for e
  proof -
    from that b obtain w where w: "w \<in> set (flat W1)"
      "e = (if np_less w (tl_eps E) then tl_mean tensor else w)"
      by (auto simp: map_array_def)
    show ?thesis
    proof (cases w)
      case (Num x)
      with w(2) show ?thesis by (cases "x < tl_eps E") simp_all
    next
      case NaN
      with w(2) show ?thesis by simp
    qed
  qed
  show ?thesis using shape soft fill by blast
qed


lemma norm2_zero: "norm2 xs = 0 \<Longrightarrow> x \<in> set xs \<Longrightarrow> x = 0"
proof -
  assume z: "norm2 xs = 0" and x: "x \<in> set xs"
  let ?sq = "map (\<lambda>x. \<bar>x\<bar> ^ 2) xs"
  have nn: "\<forall>y\<in>set ?sq. 0 \<le> y" by auto
  have "sum_list ?sq = 0"
    using z by (simp add: norm2_def)
  with sum_list_nonneg_eq_0_iff [of ?sq] nn have "\<forall>y\<in>set ?sq. y = 0" by blast
  with x show "x = 0" by auto
qed

lemma sqrt_eps64: "sqrt (1 / 4503599627370496) = 1 / 67108864"
  by (rule real_sqrt_unique) (simp_all add: power2_eq_square)

text \<open>
  Claim C6 as stated fails for \<open>nndsvda\<close> on a tensor of negative mean. The tensor
  \<open>[[-4], [0]]\<close> has the singular value decomposition \<open>U = [[1], [0]]\<close>, \<open>S = [4]\<close>,
  \<open>V = [[-1]]\<close> and the mean -2: the second entry of \<open>W\<close>, 0, is below the epsilon and is
  replaced by -2.
\<close>

theorem make_svd_non_negative_nndsvda_counterexample:
  "make_svd_non_negative zero_env (NDArray [2, 1] [- 4, 0]) (NDArray [2, 1] [1, 0]) [4]
       (NDArray [1, 1] [- 1]) ''nndsvda''
     = Inr (NDArray [2, 1] [Num 2, Num (- 2)])"
  by (simp add: make_svd_non_negative_def nndsvd_first_def set_col_def mk2_def col_def
        entry_def nrows_def ncols_def np_sqrt_def tl_mean_def np_div_def map_array_def
        upt_conv_Cons zero_env_def)

text \<open>
  \<open>NaN\<close> does occur: for \<open>diag(4, -1)\<close>, with \<open>U\<close> the identity, \<open>S = [4, 1]\<close> and
  \<open>V = diag(1, -1)\<close>, the second column of \<open>U\<close> has no negative part and the second row
  of \<open>V\<close> no positive part, both products of norms are 0, and the negative part of the
  column is divided by its norm 0.
\<close>

lemma make_svd_non_negative_nan:
  "make_svd_non_negative zero_env (NDArray [2, 2] [4, 0, 0, - 1]) (NDArray [2, 2] [1, 0, 0, 1])
       [4, 1] (NDArray [2, 2] [1, 0, 0, - 1]) ''nndsvd''
     = Inr (NDArray [2, 2] [Num (2 - 1 / 2 ^ 52), NaN, Num 0, NaN])"
  by (simp add: make_svd_non_negative_def nndsvd_first_def nndsvd_column_def set_col_def
        mk2_def col_def row_def entry_def nrows_def ncols_def np_sqrt_def tl_mean_def
        np_div_def map_array_def upt_conv_Cons norm2_def Let_def zero_env_def)

theorem make_svd_non_negative_entries_witness:
  "make_svd_non_negative zero_env (NDArray [2, 2] [4, 0, 0, 1]) (NDArray [2, 2] [1, 0, 0, 1])
       [4, 1] (NDArray [2, 2] [1, 0, 0, 1]) ''nndsvda''
     = Inr (NDArray [2, 2] [Num 2, Num (5 / 4), Num (5 / 4), Num 1])
   \<and> is_matrix (NDArray [2, 2] [Num 2, Num (5 / 4), Num (5 / 4), Num 1]) 2 2
   \<and> list_all (\<lambda>e. e = NaN \<or> (\<exists>x\<ge>1 / 2 ^ 52. e = Num x) \<or> e = Num (5 / 4))
         [Num 2, Num (5 / 4), Num (5 / 4), Num 1]"
proof -
  have h: "make_svd_non_negative zero_env (NDArray [2, 2] [4, 0, 0, 1])
       (NDArray [2, 2] [1, 0, 0, 1]) [4, 1] (NDArray [2, 2] [1, 0, 0, 1]) ''nndsvda''
     = Inr (NDArray [2, 2] [Num 2, Num (5 / 4), Num (5 / 4), Num 1])"
    by (simp add: make_svd_non_negative_def nndsvd_first_def nndsvd_column_def set_col_def
        mk2_def col_def row_def entry_def nrows_def ncols_def np_sqrt_def tl_mean_def
        np_div_def map_array_def upt_conv_Cons norm2_def Let_def zero_env_def)
  have e: "tl_eps zero_env = 1 / 2 ^ 52" by (simp add: zero_env_def)
  have m: "tl_mean (NDArray [2, 2] [4, 0, 0, 1]) = Num (5 / 4)"
    by (simp add: tl_mean_def np_div_def)
  from make_svd_non_negative_entries [OF h] h show ?thesis
    unfolding e m by (simp add: nrows_def ncols_def list_all_iff)
qed

lemma sqrt_9: "sqrt 9 = 3"
  by (rule real_sqrt_unique) simp_all

lemma Suc_Suc_0: "Suc (Suc 0) = 2"
  by simp

text \<open>The sparse branch on the matrix with diagonal \<open>(3, 0, 0)\<close>, for two components: the
  eigenvalue 0 of the Gram matrix comes back as the machine epsilon.\<close>

lemma partial_svd_diag:
  "partial_svd diag_env True diag_matrix (Some 2) None
     = ([], Inr (NDArray [3, 2] [1, 0,  0, 1,  0, 0], [3, 1 / 2 ^ 52],
                 NDArray [2, 3] [1, 0, 0,  0, 1, 0]))"
  by (simp add: partial_svd_def partial_svd_sparse_def diag_env_def diag_matrix_def
        diag_gram_def zero_env_def zeros_def eye_def and_then_def
        dot_def tl_transpose_def sparse_singular_values_def clip_min_def
        guarded_reciprocals_def bcast_cols_def flip_cols_def diag_signs_def diag_def
        Let_def mk2_def entry_def nrows_def ncols_def ndim_def upt_conv_Cons sqrt_9 Suc_Suc_0)

theorem partial_svd_sparse_singular_values_ge_eps_witness:
  "ndim diag_matrix = 2 \<and> (0::nat) < 2
   \<and> 2 < min (nrows diag_matrix) (ncols diag_matrix)
   \<and> partial_svd diag_env True diag_matrix (Some 2) None
       = ([], Inr (NDArray [3, 2] [1, 0,  0, 1,  0, 0], [3, 1 / 2 ^ 52],
                   NDArray [2, 3] [1, 0, 0,  0, 1, 0]))
   \<and> list_all (\<lambda>s. tl_eps diag_env \<le> s \<and> 0 < s) [3, 1 / 2 ^ 52]"
proof -
  have a: "ndim diag_matrix = 2" by (simp add: diag_matrix_def ndim_def)
  have b: "(0::nat) < 2" by simp
  have c: "2 < min (nrows diag_matrix) (ncols diag_matrix)"
    by (simp add: diag_matrix_def nrows_def ncols_def)
  have e: "0 < tl_eps diag_env" by (simp add: diag_env_def zero_env_def)
  from partial_svd_sparse_singular_values_ge_eps [OF a b c partial_svd_diag]
    a b c partial_svd_diag e
  show ?thesis by (simp add: list_all_iff)
qed

lemma symeig_svd_zero_1:
  "symeig_svd zero_env (zeros 1 1) (Some 1) = ([], Inr (zeros 1 1, [1 / 2 ^ 26], eye 1 1))"
  by (simp add: symeig_svd_def symeig_factors_def clamp_rank_def zero_env_def zeros_def eye_def
          dot_def tl_transpose_def symeig_singular_values_def clip_min_def
          bcast_cols_def flip_cols_def flip_rows_def slice_cols_def slice_rows_def
          Let_def mk2_def entry_def nrows_def ncols_def ndim_def upt_conv_Cons sqrt_eps64)

text \<open>
  Claim C9 as stated fails: the Gram matrix of the 1 by 1 zero matrix has the
  eigenvalue 0, whose square root after a clip at 0 is 0; \<open>symeig_svd\<close> returns the
  singular value \<open>sqrt eps\<close>, which is \<open>1 / 2 ^ 26\<close> for 64-bit floats.
\<close>

theorem symeig_svd_clip_counterexample:
  "tl_eigh zero_env (zeros 1 1) = ([0], eye 1 1)
   \<and> symeig_svd zero_env (zeros 1 1) (Some 1)
       = ([], Inr (zeros 1 1, [1 / 2 ^ 26], eye 1 1))
   \<and> map sqrt (clip_min 0 [0]) = [0]
   \<and> (1 / 2 ^ 26 :: real) \<noteq> 0"
  using symeig_svd_zero_1 by (simp add: zero_env_def zeros_def eye_def nrows_def mk2_def clip_min_def)

theorem symeig_svd_clips_at_eps_witness:
  "0 < tl_eps zero_env
   \<and> symeig_singular_values zero_env [0, 4] = [1 / 2 ^ 26, 2]
   \<and> list_all (\<lambda>x. 0 < x) (clip_min (tl_eps zero_env) [0, 4])
   \<and> symeig_svd zero_env (zeros 1 1) (Some 1) = ([], Inr (zeros 1 1, [1 / 2 ^ 26], eye 1 1))
   \<and> list_all (\<lambda>s. sqrt (tl_eps zero_env) \<le> s \<and> 0 < s) [1 / 2 ^ 26]"
proof -
  have p: "0 < tl_eps zero_env" by (simp add: zero_env_def)
  have h: "symeig_svd zero_env (zeros 1 1) (Some 1)
       = ([], Inr (zeros 1 1, [1 / 2 ^ 26], eye 1 1))"
    by (rule symeig_svd_zero_1)
  have v: "map (\<lambda>x. sqrt (max (tl_eps zero_env) x)) [0, 4] = [1 / 2 ^ 26, 2]"
    by (simp add: zero_env_def sqrt_eps64)
  from symeig_svd_clips_at_eps [OF p, of "[0, 4]" "zeros 1 1" "Some 1"] h p
  show ?thesis unfolding v by (simp add: list_all_iff)
qed

section \<open>Unknown names\<close>











section \<open>Shapes\<close>

lemma dot_returns:
  assumes "is_matrix A r m" "is_matrix B m c"
  shows "\<exists>C. dot A B = Inr C \<and> is_matrix C r c"
  using is_matrix_dims [OF assms(1)] is_matrix_dims [OF assms(2)]
  by (simp add: dot_def)

lemma is_matrix_transpose: "is_matrix A r c \<Longrightarrow> is_matrix (tl_transpose A) c r"
  by (simp add: tl_transpose_def is_matrix_dims)

lemma is_matrix_slice_cols: "is_matrix A r c \<Longrightarrow> is_matrix (slice_cols A n) r (min n c)"
  by (simp add: slice_cols_def is_matrix_dims)

lemma is_matrix_slice_rows: "is_matrix A r c \<Longrightarrow> is_matrix (slice_rows A n) (min n r) c"
  by (simp add: slice_rows_def is_matrix_dims)

lemma is_matrix_flip_cols: "is_matrix A r c \<Longrightarrow> is_matrix (flip_cols A) r c"
  by (simp add: flip_cols_def is_matrix_dims)

lemma is_matrix_flip_rows: "is_matrix A r c \<Longrightarrow> is_matrix (flip_rows A) r c"
  by (simp add: flip_rows_def is_matrix_dims)

lemma bcast_cols_returns:
  assumes "is_matrix A r c" "length s = c"
  shows "\<exists>B. bcast_cols f A s = Inr B \<and> is_matrix B r c"
  using is_matrix_dims [OF assms(1)] assms(2)
  by (simp add: bcast_cols_def Let_def)

lemma svd_returnsD:
  assumes "svd_returns E" "is_matrix A r c" "tl_svd E A full = (U, S, V)"
  shows "is_matrix U r (if full then r else min r c)" "length S = min r c"
    "is_matrix V (if full then c else min r c) c" "sorted (rev S)" "list_all (\<lambda>s. 0 \<le> s) S"
proof -
  have "(case tl_svd E A full of (U, S, V) \<Rightarrow>
        is_matrix U r (if full then r else min r c) \<and> length S = min r c
        \<and> is_matrix V (if full then c else min r c) c
        \<and> sorted (rev S) \<and> list_all (\<lambda>s. 0 \<le> s) S)"
    by (rule assms(1) [unfolded svd_returns_def, rule_format]) (use assms in simp_all)
  with assms(2,3) show "is_matrix U r (if full then r else min r c)" "length S = min r c"
    "is_matrix V (if full then c else min r c) c" "sorted (rev S)" "list_all (\<lambda>s. 0 \<le> s) S"
    by simp_all
qed

lemma eigh_returnsD:
  assumes "eigh_returns E" "is_matrix A n n" "tl_eigh E A = (w, Q)"
  shows "length w = n" "is_matrix Q n n" "sorted w"
proof -
  have "(case tl_eigh E A of (w, Q) \<Rightarrow> length w = n \<and> is_matrix Q n n \<and> sorted w)"
    by (rule assms(1) [unfolded eigh_returns_def, rule_format]) (use assms in simp_all)
  with assms(2,3) show "length w = n" "is_matrix Q n n" "sorted w" by simp_all
qed

lemma eigsh_returnsD:
  assumes "eigsh_returns E" "is_matrix A n n" "0 < k" "k < n" "sp_eigsh E A k v0 = Inr (w, Q)"
  shows "length w = k" "is_matrix Q n k" "sorted w"
proof -
  have "(case sp_eigsh E A k v0 of
           Inl e \<Rightarrow> True
         | Inr (w, Q) \<Rightarrow> length w = k \<and> is_matrix Q n k \<and> sorted w)"
    by (rule assms(1) [unfolded eigsh_returns_def, rule_format]) (use assms in simp_all)
  with assms(2-5) show "length w = k" "is_matrix Q n k" "sorted w" by simp_all
qed

lemma qr_returnsD:
  assumes "qr_returns E" "is_matrix A m n"
  shows "is_matrix (fst (tl_qr E A)) m (min m n)" "is_matrix (snd (tl_qr E A)) (min m n) n"
proof -
  have "(case tl_qr E A of (Q, R) \<Rightarrow> is_matrix Q m (min m n) \<and> is_matrix R (min m n) n)"
    by (rule assms(1) [unfolded qr_returns_def, rule_format]) (use assms in simp_all)
  with assms(2) show "is_matrix (fst (tl_qr E A)) m (min m n)"
    "is_matrix (snd (tl_qr E A)) (min m n) n"
    by (simp_all add: case_prod_beta)
qed

lemma sorted_map_monotone:
  fixes f :: "real \<Rightarrow> real"
  assumes "\<And>x y. x \<le> y \<Longrightarrow> f x \<le> f y"
  shows "sorted xs \<Longrightarrow> sorted (map f xs)"
  by (induction xs) (auto intro: assms)

lemma sorted_rev_take: "sorted (rev S) \<Longrightarrow> sorted (rev (take k S))"
  by (simp add: rev_take sorted_wrt_drop)

lemma list_all_take: "list_all P S \<Longrightarrow> list_all P (take k S)"
  by (auto simp: list_all_iff dest: in_set_takeD)

section \<open>Facts about \<open>symeig_svd\<close>\<close>

lemma symeig_singular_values_sorted:
  "sorted w \<Longrightarrow> sorted (symeig_singular_values E w)"
  unfolding symeig_singular_values_def clip_min_def map_map
  by (rule sorted_map_monotone) (auto intro: max.mono)

lemma symeig_singular_values_nonneg:
  "0 \<le> tl_eps E \<Longrightarrow> list_all (\<lambda>s. 0 \<le> s) (symeig_singular_values E w)"
  by (auto simp: symeig_singular_values_def clip_min_def list_all_iff)

lemma symeig_factors_returns:
  assumes "is_matrix matrix dim_1 dim_2" "eigh_returns E"
  shows "\<exists>U S V. symeig_factors E matrix = Inr (U, S, V)
           \<and> is_matrix U dim_1 (max dim_1 dim_2) \<and> length S = max dim_1 dim_2
           \<and> is_matrix V (max dim_1 dim_2) dim_2 \<and> sorted (rev S)
           \<and> (0 \<le> tl_eps E \<longrightarrow> list_all (\<lambda>s. 0 \<le> s) S)"
proof -
  note d = is_matrix_dims [OF assms(1)]
  note mT = is_matrix_transpose [OF assms(1)]
  show ?thesis
  proof (cases "dim_1 > dim_2")
    case True
    from dot_returns [OF assms(1) mT] obtain G where G: "dot matrix (tl_transpose matrix) = Inr G"
      "is_matrix G dim_1 dim_1" by blast
    obtain w Q where e: "tl_eigh E G = (w, Q)" by (cases "tl_eigh E G")
    note q = eigh_returnsD [OF assms(2) G(2) e]
    let ?S = "symeig_singular_values E w"
    have lS: "length ?S = dim_1" using q(1) by (simp add: symeig_singular_values_def clip_min_def)
    from bcast_cols_returns [OF q(2) lS] obtain Us where Us: "bcast_cols (/) Q ?S = Inr Us"
      "is_matrix Us dim_1 dim_1" by blast
    from dot_returns [OF mT Us(2)] obtain V where V: "dot (tl_transpose matrix) Us = Inr V"
      "is_matrix V dim_2 dim_1" by blast
    have "symeig_factors E matrix = Inr (flip_cols Q, rev ?S, flip_rows (tl_transpose V))"
      using True d G(1) e Us(1) V(1) by (simp add: symeig_factors_def)
    moreover have "is_matrix (flip_cols Q) dim_1 (max dim_1 dim_2)"
      using True q(2) by (simp add: is_matrix_flip_cols max_def)
    moreover have "is_matrix (flip_rows (tl_transpose V)) (max dim_1 dim_2) dim_2"
      using True V(2) by (simp add: is_matrix_flip_rows is_matrix_transpose max_def)
    moreover have "length (rev ?S) = max dim_1 dim_2" using True lS by simp
    moreover have "sorted (rev (rev ?S))"
      using q(3) by (simp add: symeig_singular_values_sorted)
    moreover have "0 \<le> tl_eps E \<longrightarrow> list_all (\<lambda>s. 0 \<le> s) (rev ?S)"
      using symeig_singular_values_nonneg [of E w] by (simp add: list_all_iff)
    ultimately show ?thesis by blast
  next
    case False
    from dot_returns [OF mT assms(1)] obtain G where G: "dot (tl_transpose matrix) matrix = Inr G"
      "is_matrix G dim_2 dim_2" by blast
    obtain w Q where e: "tl_eigh E G = (w, Q)" by (cases "tl_eigh E G")
    note q = eigh_returnsD [OF assms(2) G(2) e]
    let ?S = "symeig_singular_values E w"
    have lS: "length ?S = dim_2" using q(1) by (simp add: symeig_singular_values_def clip_min_def)
    from dot_returns [OF assms(1) q(2)] obtain MV where MV: "dot matrix Q = Inr MV"
      "is_matrix MV dim_1 dim_2" by blast
    from bcast_cols_returns [OF MV(2) lS] obtain U where U: "bcast_cols (/) MV ?S = Inr U"
      "is_matrix U dim_1 dim_2" by blast
    have "symeig_factors E matrix = Inr (flip_cols U, rev ?S, flip_rows (tl_transpose Q))"
      using False d G(1) e MV(1) U(1) by (simp add: symeig_factors_def)
    moreover have "is_matrix (flip_cols U) dim_1 (max dim_1 dim_2)"
      using False U(2) by (simp add: is_matrix_flip_cols max_def)
    moreover have "is_matrix (flip_rows (tl_transpose Q)) (max dim_1 dim_2) dim_2"
      using False q(2) by (simp add: is_matrix_flip_rows is_matrix_transpose max_def)
    moreover have "length (rev ?S) = max dim_1 dim_2" using False lS by simp
    moreover have "sorted (rev (rev ?S))"
      using q(3) by (simp add: symeig_singular_values_sorted)
    moreover have "0 \<le> tl_eps E \<longrightarrow> list_all (\<lambda>s. 0 \<le> s) (rev ?S)"
      using symeig_singular_values_nonneg [of E w] by (simp add: list_all_iff)
    ultimately show ?thesis by blast
  qed
qed

lemma symeig_svd_unfold:
  assumes "is_matrix matrix dim_1 dim_2" "symeig_factors E matrix = Inr (U, S, V)"
  shows "symeig_svd E matrix n_eigenvecs =
           (fst (clamp_rank n_eigenvecs (max dim_1 dim_2)),
            Inr (slice_cols U (min dim_1 (snd (clamp_rank n_eigenvecs (max dim_1 dim_2)))),
                 take (min (min dim_1 dim_2) (snd (clamp_rank n_eigenvecs (max dim_1 dim_2)))) S,
                 slice_rows V (min dim_2 (snd (clamp_rank n_eigenvecs (max dim_1 dim_2))))))"
  using is_matrix_dims [OF assms(1)] assms(2)
  by (simp add: symeig_svd_def Let_def case_prod_beta)



section \<open>The environment of zero matrices\<close>

lemma is_matrix_eye [simp]: "is_matrix (eye r c) r' c' \<longleftrightarrow> r' = r \<and> c' = c"
  by (simp add: eye_def)

lemma is_matrix_zeros [simp]: "is_matrix (zeros r c) r' c' \<longleftrightarrow> r' = r \<and> c' = c"
  by (simp add: zeros_def)

lemma sorted_replicate_real: "sorted (replicate n (x::real))"
  by (induction n) auto

lemma svd_returns_zero_env: "svd_returns zero_env"
  by (auto simp: svd_returns_def zero_env_def Let_def is_matrix_dims list_all_iff
        sorted_replicate_real)

lemma eigh_returns_zero_env: "eigh_returns zero_env"
  by (auto simp: eigh_returns_def zero_env_def is_matrix_dims sorted_replicate_real)

lemma eigsh_returns_zero_env: "eigsh_returns zero_env"
  by (auto simp: eigsh_returns_def zero_env_def is_matrix_dims sorted_replicate_real)

lemma qr_returns_zero_env: "qr_returns zero_env"
  by (auto simp: qr_returns_def zero_env_def Let_def is_matrix_dims)

lemma normal_returns_zero_env: "normal_returns zero_env"
  by (simp add: normal_returns_def zero_env_def)

lemma collaborators_return_zero_env: "collaborators_return zero_env"
  by (simp add: collaborators_return_def svd_returns_zero_env eigh_returns_zero_env
        eigsh_returns_zero_env qr_returns_zero_env normal_returns_zero_env)

section \<open>The environment of the diagonal matrix\<close>

lemma svd_returns_diag_env: "svd_returns diag_env"
  unfolding svd_returns_def
proof (intro allI impI)
  fix A :: matrix and full r c
  assume m: "is_matrix A r c"
  show "case tl_svd diag_env A full of (U, S, V) \<Rightarrow>
          is_matrix U r (if full then r else min r c) \<and> length S = min r c
          \<and> is_matrix V (if full then c else min r c) c
          \<and> sorted (rev S) \<and> list_all (\<lambda>s. 0 \<le> s) S"
  proof (cases "A = diag_matrix")
    case True
    with m have "r = 3" "c = 3" by (simp_all add: is_matrix_def diag_matrix_def)
    then show ?thesis using True by (simp add: diag_env_def)
  next
    case False
    then have "tl_svd diag_env A full = tl_svd zero_env A full" by (simp add: diag_env_def)
    then show ?thesis
      using svd_returns_zero_env [unfolded svd_returns_def, rule_format, OF m, of full] by simp
  qed
qed

lemma eigh_returns_diag_env: "eigh_returns diag_env"
  unfolding eigh_returns_def
proof (intro allI impI)
  fix A :: matrix and n
  assume m: "is_matrix A n n"
  show "case tl_eigh diag_env A of (w, Q) \<Rightarrow> length w = n \<and> is_matrix Q n n \<and> sorted w"
  proof (cases "A = diag_gram")
    case True
    with m have "n = 3" by (simp add: is_matrix_def diag_gram_def)
    then show ?thesis using True by (simp add: diag_env_def is_matrix_def)
  next
    case False
    then have "tl_eigh diag_env A = tl_eigh zero_env A" by (simp add: diag_env_def)
    then show ?thesis
      using eigh_returns_zero_env [unfolded eigh_returns_def, rule_format, OF m] by simp
  qed
qed

lemma eigsh_returns_diag_env: "eigsh_returns diag_env"
  unfolding eigsh_returns_def
proof (intro allI impI)
  fix A :: matrix and n k and v0 :: "real list"
  assume m: "is_matrix A n n"
  show "case sp_eigsh diag_env A k v0 of
          Inl e \<Rightarrow> True
        | Inr (w, Q) \<Rightarrow> length w = k \<and> is_matrix Q n k \<and> sorted w"
  proof (cases "A = diag_gram \<and> k = 2")
    case True
    with m have "n = 3" by (simp add: is_matrix_def diag_gram_def)
    then show ?thesis using True by (simp add: diag_env_def is_matrix_def)
  next
    case False
    then show ?thesis by (auto simp: diag_env_def)
  qed
qed

lemma qr_returns_diag_env: "qr_returns diag_env"
  unfolding qr_returns_def
proof (intro allI impI)
  fix A :: matrix and m n
  assume a: "is_matrix A m n"
  let ?U = "NDArray [3, 2] [1, 0,  0, 0,  0, 0] :: matrix"
  let ?Y = "NDArray [3, 3] [3, 3, 3,  0, 0, 0,  0, 0, 0] :: matrix"
  show "case tl_qr diag_env A of (Q, R) \<Rightarrow>
          is_matrix Q m (min m n) \<and> is_matrix R (min m n) n"
  proof (cases "A = ?U")
    case True
    with a have "m = 3" "n = 2" by (simp_all add: is_matrix_def)
    moreover have "is_matrix (NDArray [2, 2] [1, 0,  0, 0 :: real]) 2 2"
      by (simp add: is_matrix_def)
    ultimately show ?thesis using True by (simp add: diag_env_def)
  next
    case False
    show ?thesis
    proof (cases "A = diag_matrix \<or> A = ?Y")
      case True
      with a have "m = 3" "n = 3" by (auto simp: is_matrix_def diag_matrix_def)
      then show ?thesis using True a \<open>A \<noteq> ?U\<close> by (auto simp: diag_env_def)
    next
      case no: False
      with False have "tl_qr diag_env A = tl_qr zero_env A" by (simp add: diag_env_def)
      then show ?thesis
        using qr_returns_zero_env [unfolded qr_returns_def, rule_format, OF a] by simp
    qed
  qed
qed

lemma normal_returns_diag_env: "normal_returns diag_env"
  using normal_returns_zero_env by (simp add: normal_returns_def diag_env_def)

lemma collaborators_return_diag_env: "collaborators_return diag_env"
  by (simp add: collaborators_return_def svd_returns_diag_env eigh_returns_diag_env
        eigsh_returns_diag_env qr_returns_diag_env normal_returns_diag_env)

lemma replicate_2: "replicate 2 x = [x, x]"
  by (simp add: numeral_2_eq_2)

lemma replicate_3: "replicate 3 x = [x, x, x]"
  by (simp add: numeral_3_eq_3)

lemmas eval_arrays = zero_env_def zeros_def eye_def dot_def tl_transpose_def clip_min_def
  bcast_cols_def flip_cols_def flip_rows_def slice_cols_def slice_rows_def diag_def
  Let_def mk2_def entry_def nrows_def ncols_def ndim_def upt_conv_Cons
  replicate_2 replicate_3


section \<open>Facts about \<open>truncated_svd\<close> and \<open>partial_svd\<close>\<close>

lemma clamp_rank_le: "n \<le> m \<Longrightarrow> clamp_rank (Some n) m = ([], n)"
  by (simp add: clamp_rank_def)

lemma clamp_rank_gt: "m < k \<Longrightarrow> clamp_rank (Some k) m = ([RankTooLarge k m], m)"
  by (simp add: clamp_rank_def)

lemma truncated_svd_returns:
  assumes "svd_returns E" "is_matrix B a b" "n \<le> max a b"
  shows "\<exists>U S V. truncated_svd E B (Some n) = ([], Inr (U, S, V))
           \<and> is_matrix U a (min n (if n > min a b then a else min a b))
           \<and> length S = min n (min a b)
           \<and> is_matrix V (min n (if n > min a b then b else min a b)) b
           \<and> sorted (rev S) \<and> list_all (\<lambda>s. 0 \<le> s) S"
proof -
  note d = is_matrix_dims [OF assms(2)]
  obtain U S V where s: "tl_svd E B (n > min a b) = (U, S, V)"
    by (cases "tl_svd E B (n > min a b)") auto
  note r = svd_returnsD [OF assms(1,2) s]
  have "truncated_svd E B (Some n) = ([], Inr (slice_cols U n, take n S, slice_rows V n))"
    using d s by (simp add: truncated_svd_def clamp_rank_le [OF assms(3)] Let_def)
  moreover have "is_matrix (slice_cols U n) a (min n (if n > min a b then a else min a b))"
    using is_matrix_slice_cols [OF r(1)] by simp
  moreover have "is_matrix (slice_rows V n) (min n (if n > min a b then b else min a b)) b"
    using is_matrix_slice_rows [OF r(3)] by simp
  moreover have "length (take n S) = min n (min a b)" using r(2) by simp
  moreover have "sorted (rev (take n S))" using r(4) by (rule sorted_rev_take)
  moreover have "list_all (\<lambda>s. 0 \<le> s) (take n S)" using r(5) by (rule list_all_take)
  ultimately show ?thesis by blast
qed

lemma truncated_svd_clamped:
  assumes "ndim matrix = 2" "max (nrows matrix) (ncols matrix) < k"
  shows "truncated_svd E matrix (Some k)
           = ([RankTooLarge k (max (nrows matrix) (ncols matrix))],
              snd (truncated_svd E matrix (Some (max (nrows matrix) (ncols matrix)))))"
  using assms(1)
  by (simp add: truncated_svd_def clamp_rank_gt [OF assms(2)] clamp_rank_le Let_def
        case_prod_beta)

lemma symeig_svd_clamped:
  assumes "ndim matrix = 2" "max (nrows matrix) (ncols matrix) < k"
  shows "symeig_svd E matrix (Some k)
           = ([RankTooLarge k (max (nrows matrix) (ncols matrix))],
              snd (symeig_svd E matrix (Some (max (nrows matrix) (ncols matrix)))))"
  using assms(1)
  by (simp add: symeig_svd_def clamp_rank_gt [OF assms(2)] clamp_rank_le Let_def
        case_prod_beta)

lemma partial_svd_dense_returns:
  assumes "svd_returns E" "is_matrix matrix rows cols" "min rows cols \<le> k"
  shows "\<exists>U S V. partial_svd E is_numpy matrix (Some k) random_state
             = (if is_numpy then [] else [ConvertingToNumPy], Inr (U, S, V))
           \<and> is_matrix U rows (min k (if k > min rows cols then rows else min rows cols))
           \<and> length S = min k (min rows cols)
           \<and> is_matrix V (min k (if k > min rows cols then cols else min rows cols)) cols
           \<and> sorted (rev S) \<and> list_all (\<lambda>s. 0 \<le> s) S"
proof -
  note d = is_matrix_dims [OF assms(2)]
  obtain U S V where s: "tl_svd E matrix (k > min rows cols) = (U, S, V)"
    by (cases "tl_svd E matrix (k > min rows cols)") auto
  note r = svd_returnsD [OF assms(1,2) s]
  have "partial_svd E is_numpy matrix (Some k) random_state
          = (if is_numpy then [] else [ConvertingToNumPy],
             Inr (slice_cols U k, take k S, slice_rows V k))"
    using d assms(3) s by (simp add: partial_svd_def partial_svd_dense_def Let_def)
  moreover have "is_matrix (slice_cols U k) rows
      (min k (if k > min rows cols then rows else min rows cols))"
    using is_matrix_slice_cols [OF r(1)] by simp
  moreover have "is_matrix (slice_rows V k)
      (min k (if k > min rows cols then cols else min rows cols)) cols"
    using is_matrix_slice_rows [OF r(3)] by simp
  moreover have "length (take k S) = min k (min rows cols)" using r(2) by simp
  moreover have "sorted (rev (take k S))" using r(4) by (rule sorted_rev_take)
  moreover have "list_all (\<lambda>s. 0 \<le> s) (take k S)" using r(5) by (rule list_all_take)
  ultimately show ?thesis by blast
qed

lemma sparse_singular_values_sorted:
  assumes "sorted w"
  shows "sorted (sparse_singular_values E w)"
proof -
  have "max (tl_eps E) (sqrt (max 0 x)) \<le> max (tl_eps E) (sqrt (max 0 y))"
    if "x \<le> y" for x y :: real
  proof -
    from that have "sqrt (max 0 x) \<le> sqrt (max 0 y)" by (simp add: max.coboundedI2)
    then show ?thesis by (rule max.mono [OF order_refl])
  qed
  then have "sorted (map (\<lambda>x. max (tl_eps E) (sqrt (max 0 x))) w)"
    using assms by (rule sorted_map_monotone)
  then show ?thesis
    by (simp add: sparse_singular_values_def clip_min_def comp_def)
qed

lemma sparse_singular_values_nonneg:
  "list_all (\<lambda>s. 0 \<le> s) (sparse_singular_values E w)"
proof -
  have "0 \<le> max (tl_eps E) (sqrt (max 0 x))" for x :: real
    by (rule max.coboundedI2) simp
  then show ?thesis
    by (simp add: sparse_singular_values_def clip_min_def list_all_iff)
qed

lemma length_sparse_singular_values [simp]:
  "length (sparse_singular_values E w) = length w"
  by (simp add: sparse_singular_values_def clip_min_def)

lemma length_guarded_reciprocals [simp]: "length (guarded_reciprocals E S) = length S"
  by (simp add: guarded_reciprocals_def)

lemma length_diag_signs: "is_matrix R k k \<Longrightarrow> length (diag_signs R) = k"
  by (simp add: diag_signs_def diag_def is_matrix_dims)

lemma partial_svd_sparse_raises:
  assumes "sparse_eigsh E matrix k random_state = Inl e"
  shows "partial_svd_sparse E matrix k random_state = Inl e"
  using assms unfolding sparse_eigsh_def partial_svd_sparse_def Let_def
  by (auto simp: and_then_def split: if_splits sum.splits)

lemma partial_svd_sparse_returns:
  assumes "eigsh_returns E" "qr_returns E" "is_matrix matrix rows cols"
    and "0 < k" "k < min rows cols"
    and "sparse_eigsh E matrix k random_state = Inr p"
  shows "\<exists>U S V. partial_svd_sparse E matrix k random_state = Inr (U, S, V)
           \<and> is_matrix U rows k \<and> length S = k \<and> is_matrix V k cols
           \<and> sorted (rev S) \<and> list_all (\<lambda>s. 0 \<le> s) S"
proof -
  note d = is_matrix_dims [OF assms(3)]
  note mT = is_matrix_transpose [OF assms(3)]
  define v0 where "v0 = rng_uniform E random_state (min rows cols)"
  show ?thesis
  proof (cases "rows < cols")
    case True
    from dot_returns [OF assms(3) mT] obtain G where G: "dot matrix (tl_transpose matrix) = Inr G"
      "is_matrix G rows rows" by blast
    obtain w Q where p: "p = (w, Q)" by (cases p)
    have e: "sp_eigsh E G k v0 = Inr (w, Q)"
      using assms(6) True d G(1) p by (simp add: sparse_eigsh_def Let_def v0_def)
    have kr: "k < rows" using assms(5) by simp
    note q = eigsh_returnsD [OF assms(1) G(2) assms(4) kr e]
    define S where "S = sparse_singular_values E w"
    have lS: "length (guarded_reciprocals E S) = k" using q(1) by (simp add: S_def)
    from bcast_cols_returns [OF q(2) lS] obtain Us where
      Us: "bcast_cols (*) Q (guarded_reciprocals E S) = Inr Us" "is_matrix Us rows k" by blast
    from dot_returns [OF mT Us(2)] obtain V where V: "dot (tl_transpose matrix) Us = Inr V"
      "is_matrix V cols k" by blast
    let ?qr = "tl_qr E (flip_cols V)"
    have kc: "min cols k = k" using assms(5) by simp
    have Q1: "is_matrix (fst ?qr) cols k" and R1: "is_matrix (snd ?qr) k k"
      using qr_returnsD [OF assms(2) is_matrix_flip_cols [OF V(2)]] by (simp_all add: kc)
    from bcast_cols_returns [OF Q1 length_diag_signs [OF R1]] obtain V' where
      V': "bcast_cols (*) (fst ?qr) (diag_signs (snd ?qr)) = Inr V'" "is_matrix V' cols k" by blast
    have "partial_svd_sparse E matrix k random_state
            = Inr (flip_cols Q, rev S, tl_transpose V')"
      using True d G(1) e Us(1) V(1) V'(1)
      by (simp add: partial_svd_sparse_def Let_def case_prod_beta v0_def S_def)
    moreover have "is_matrix (flip_cols Q) rows k" using q(2) by (rule is_matrix_flip_cols)
    moreover have "is_matrix (tl_transpose V') k cols" using V'(2) by (rule is_matrix_transpose)
    moreover have "length (rev S) = k" using q(1) by (simp add: S_def)
    moreover have "sorted (rev (rev S))"
      using q(3) by (simp add: S_def sparse_singular_values_sorted)
    moreover have "list_all (\<lambda>s. 0 \<le> s) (rev S)"
      using sparse_singular_values_nonneg [of E w] by (simp add: S_def list_all_iff)
    ultimately show ?thesis by blast
  next
    case False
    from dot_returns [OF mT assms(3)] obtain G where G: "dot (tl_transpose matrix) matrix = Inr G"
      "is_matrix G cols cols" by blast
    obtain w Q where p: "p = (w, Q)" by (cases p)
    have e: "sp_eigsh E G k v0 = Inr (w, Q)"
      using assms(6) False d G(1) p by (simp add: sparse_eigsh_def Let_def v0_def)
    have kr: "k < cols" using assms(5) by simp
    note q = eigsh_returnsD [OF assms(1) G(2) assms(4) kr e]
    define S where "S = sparse_singular_values E w"
    have lS: "length (guarded_reciprocals E S) = k" using q(1) by (simp add: S_def)
    from dot_returns [OF assms(3) q(2)] obtain MV where MV: "dot matrix Q = Inr MV"
      "is_matrix MV rows k" by blast
    from bcast_cols_returns [OF MV(2) lS] obtain U where
      U: "bcast_cols (*) MV (guarded_reciprocals E S) = Inr U" "is_matrix U rows k" by blast
    let ?qr = "tl_qr E (flip_cols U)"
    have kc: "min rows k = k" using assms(5) by simp
    have Q1: "is_matrix (fst ?qr) rows k" and R1: "is_matrix (snd ?qr) k k"
      using qr_returnsD [OF assms(2) is_matrix_flip_cols [OF U(2)]] by (simp_all add: kc)
    from bcast_cols_returns [OF Q1 length_diag_signs [OF R1]] obtain U' where
      U': "bcast_cols (*) (fst ?qr) (diag_signs (snd ?qr)) = Inr U'" "is_matrix U' rows k" by blast
    have "partial_svd_sparse E matrix k random_state
            = Inr (U', rev S, tl_transpose (flip_cols Q))"
      using False d G(1) e MV(1) U(1) U'(1)
      by (simp add: partial_svd_sparse_def Let_def case_prod_beta v0_def S_def)
    moreover have "is_matrix (tl_transpose (flip_cols Q)) k cols"
      using q(2) by (simp add: is_matrix_transpose is_matrix_flip_cols)
    moreover have "length (rev S) = k" using q(1) by (simp add: S_def)
    moreover have "sorted (rev (rev S))"
      using q(3) by (simp add: S_def sparse_singular_values_sorted)
    moreover have "list_all (\<lambda>s. 0 \<le> s) (rev S)"
      using sparse_singular_values_nonneg [of E w] by (simp add: S_def list_all_iff)
    ultimately show ?thesis using U'(2) by blast
  qed
qed

section \<open>Facts about \<open>randomized_svd\<close>\<close>

lemma power_iterations_returns:
  assumes "qr_returns E" "is_matrix A m n" "is_matrix A_H n m"
  shows "is_matrix Q m q \<Longrightarrow>
           \<exists>Q'. power_iterations E A A_H i Q = Inr Q'
                \<and> is_matrix Q' m (if i = 0 then q else min (min m n) q)"
proof (induction i arbitrary: Q q)
  case 0
  then show ?case by simp
next
  case (Suc i)
  from dot_returns [OF assms(3) Suc.prems] obtain Y where Y: "dot A_H Q = Inr Y"
    "is_matrix Y n q" by blast
  define Q1 where "Q1 = fst (tl_qr E Y)"
  have Q1: "is_matrix Q1 n (min n q)"
    unfolding Q1_def using qr_returnsD(1) [OF assms(1) Y(2)] .
  from dot_returns [OF assms(2) Q1] obtain Z where Z: "dot A Q1 = Inr Z"
    "is_matrix Z m (min n q)" by blast
  define Q2 where "Q2 = fst (tl_qr E Z)"
  have Q2: "is_matrix Q2 m (min m (min n q))"
    unfolding Q2_def using qr_returnsD(1) [OF assms(1) Z(2)] .
  from Suc.IH [OF Q2] obtain Q' where Q': "power_iterations E A A_H i Q2 = Inr Q'"
    "is_matrix Q' m (if i = 0 then min m (min n q) else min (min m n) (min m (min n q)))"
    by blast
  have e: "(if i = 0 then min m (min n q) else min (min m n) (min m (min n q)))
             = min (min m n) q"
    by (auto simp: min_def)
  have "power_iterations E A A_H (Suc i) Q = Inr Q'"
    using Y(1) Z(1) Q'(1) by (simp add: Let_def Q1_def Q2_def)
  with Q'(2) show ?case unfolding e by simp
qed

lemma randomized_range_finder_returns:
  assumes "qr_returns E" "normal_returns E" "is_matrix A m n"
  shows "\<exists>Q. randomized_range_finder E A n_dims n_iter random_state = Inr Q
           \<and> is_matrix Q m (if n_iter = 0 then min m n_dims else min (min m n) n_dims)"
proof -
  note d = is_matrix_dims [OF assms(3)]
  define Om where "Om = rng_normal E random_state n n_dims"
  have Om: "is_matrix Om n n_dims"
    using assms(2) by (simp add: normal_returns_def Om_def)
  from dot_returns [OF assms(3) Om] obtain Y where Y: "dot A Om = Inr Y"
    "is_matrix Y m n_dims" by blast
  define Q0 where "Q0 = fst (tl_qr E Y)"
  have Q0: "is_matrix Q0 m (min m n_dims)"
    unfolding Q0_def using qr_returnsD(1) [OF assms(1) Y(2)] .
  from power_iterations_returns [OF assms(1,3) is_matrix_transpose [OF assms(3)] Q0]
  obtain Q where Q: "power_iterations E A (tl_transpose A) n_iter Q0 = Inr Q"
    "is_matrix Q m (if n_iter = 0 then min m n_dims else min (min m n) (min m n_dims))"
    by blast
  have e: "min (min m n) (min m n_dims) = min (min m n) n_dims" by simp
  have "randomized_range_finder E A n_dims n_iter random_state = Inr Q"
    using d Y(1) Q(1) by (simp add: randomized_range_finder_def Let_def Om_def Q0_def)
  with Q(2) show ?thesis unfolding e by blast
qed

text \<open>The two orientations of \<open>randomized_svd\<close>, lines 439--446 and 448--454, for a rank
  that is not above \<open>max(rows, cols)\<close>.\<close>

lemma randomized_direct:
  assumes "svd_returns E" "qr_returns E" "normal_returns E" "is_matrix matrix rows cols"
    and "n \<le> cols"
  shows "\<exists>Q q M U S V U'.
           randomized_range_finder E matrix n_dims n_iter random_state = Inr Q
         \<and> dot (tl_transpose Q) matrix = Inr M
         \<and> truncated_svd E M (Some n) = ([], Inr (U, S, V))
         \<and> dot Q U = Inr U'
         \<and> q = (if n_iter = 0 then min rows n_dims else min (min rows cols) n_dims)
         \<and> is_matrix U' rows (min n (if n > min q cols then q else min q cols))
         \<and> length S = min n (min q cols)
         \<and> is_matrix V (min n (if n > min q cols then cols else min q cols)) cols
         \<and> sorted (rev S) \<and> list_all (\<lambda>s. 0 \<le> s) S"
proof -
  define q where "q = (if n_iter = 0 then min rows n_dims else min (min rows cols) n_dims)"
  from randomized_range_finder_returns [OF assms(2,3,4)] obtain Q where
    Q: "randomized_range_finder E matrix n_dims n_iter random_state = Inr Q"
      "is_matrix Q rows q"
    unfolding q_def by blast
  from dot_returns [OF is_matrix_transpose [OF Q(2)] assms(4)] obtain M where
    M: "dot (tl_transpose Q) matrix = Inr M" "is_matrix M q cols" by blast
  have "n \<le> max q cols" using assms(5) by simp
  from truncated_svd_returns [OF assms(1) M(2) this] obtain U S V where
    t: "truncated_svd E M (Some n) = ([], Inr (U, S, V))"
    and U: "is_matrix U q (min n (if n > min q cols then q else min q cols))"
    and S: "length S = min n (min q cols)"
    and V: "is_matrix V (min n (if n > min q cols then cols else min q cols)) cols"
    and o: "sorted (rev S)" "list_all (\<lambda>s. 0 \<le> s) S"
    by blast
  from dot_returns [OF Q(2) U] obtain U' where
    U': "dot Q U = Inr U'" "is_matrix U' rows (min n (if n > min q cols then q else min q cols))"
    by blast
  show ?thesis using Q(1) M(1) t U' S V o q_def by blast
qed

lemma randomized_transposed:
  assumes "svd_returns E" "qr_returns E" "normal_returns E" "is_matrix matrix rows cols"
    and "n \<le> rows"
  shows "\<exists>Q q M U S V V'.
           randomized_range_finder E (tl_transpose matrix) n_dims n_iter random_state = Inr Q
         \<and> dot (tl_transpose Q) (tl_transpose matrix) = Inr M
         \<and> truncated_svd E (tl_transpose M) (Some n) = ([], Inr (U, S, V))
         \<and> dot V (tl_transpose Q) = Inr V'
         \<and> q = (if n_iter = 0 then min cols n_dims else min (min cols rows) n_dims)
         \<and> is_matrix U rows (min n (if n > min rows q then rows else min rows q))
         \<and> length S = min n (min rows q)
         \<and> is_matrix V' (min n (if n > min rows q then q else min rows q)) cols
         \<and> sorted (rev S) \<and> list_all (\<lambda>s. 0 \<le> s) S"
proof -
  define q where "q = (if n_iter = 0 then min cols n_dims else min (min cols rows) n_dims)"
  note mT = is_matrix_transpose [OF assms(4)]
  from randomized_range_finder_returns [OF assms(2,3) mT] obtain Q where
    Q: "randomized_range_finder E (tl_transpose matrix) n_dims n_iter random_state = Inr Q"
      "is_matrix Q cols q"
    unfolding q_def by blast
  from dot_returns [OF is_matrix_transpose [OF Q(2)] mT] obtain M where
    M: "dot (tl_transpose Q) (tl_transpose matrix) = Inr M" "is_matrix M q rows" by blast
  have "n \<le> max rows q" using assms(5) by simp
  from truncated_svd_returns [OF assms(1) is_matrix_transpose [OF M(2)] this] obtain U S V where
    t: "truncated_svd E (tl_transpose M) (Some n) = ([], Inr (U, S, V))"
    and U: "is_matrix U rows (min n (if n > min rows q then rows else min rows q))"
    and S: "length S = min n (min rows q)"
    and V: "is_matrix V (min n (if n > min rows q then q else min rows q)) q"
    and o: "sorted (rev S)" "list_all (\<lambda>s. 0 \<le> s) S"
    by blast
  from dot_returns [OF V is_matrix_transpose [OF Q(2)]] obtain V' where
    V': "dot V (tl_transpose Q) = Inr V'"
      "is_matrix V' (min n (if n > min rows q then q else min rows q)) cols"
    by blast
  show ?thesis using Q(1) M(1) t U V' S o q_def by blast
qed

lemma randomized_svd_returns:
  assumes "svd_returns E" "qr_returns E" "normal_returns E" "is_matrix matrix rows cols"
    and "n \<le> max rows cols"
  shows "\<exists>U S V. randomized_svd E matrix (Some n) n_oversamples n_iter random_state
                    = ([], Inr (U, S, V))
           \<and> (n \<le> min rows cols \<longrightarrow>
                is_matrix U rows n \<and> length S = n \<and> is_matrix V n cols
                \<and> sorted (rev S) \<and> list_all (\<lambda>s. 0 \<le> s) S)"
proof -
  note d = is_matrix_dims [OF assms(4)]
  define n_dims where "n_dims = min (n + n_oversamples) (max rows cols)"
  define c where "c = transpose_first rows cols n n_dims"
  have nd: "n \<le> n_dims" using assms(5) by (simp add: n_dims_def)
  show ?thesis
  proof (cases c)
    case True
    then have nr: "n \<le> rows"
      using assms(5) unfolding c_def transpose_first_def by (auto simp: Let_def)
    from randomized_transposed [OF assms(1-4) nr, of n_dims n_iter random_state]
    obtain Q q M U S V V' where
      1: "randomized_range_finder E (tl_transpose matrix) n_dims n_iter random_state = Inr Q"
      and 2: "dot (tl_transpose Q) (tl_transpose matrix) = Inr M"
      and 3: "truncated_svd E (tl_transpose M) (Some n) = ([], Inr (U, S, V))"
      and 4: "dot V (tl_transpose Q) = Inr V'"
      and q: "q = (if n_iter = 0 then min cols n_dims else min (min cols rows) n_dims)"
      and U: "is_matrix U rows (min n (if n > min rows q then rows else min rows q))"
      and S: "length S = min n (min rows q)"
      and V: "is_matrix V' (min n (if n > min rows q then q else min rows q)) cols"
      and o: "sorted (rev S)" "list_all (\<lambda>s. 0 \<le> s) S"
      by blast
    have r: "randomized_svd E matrix (Some n) n_oversamples n_iter random_state
               = ([], Inr (U, S, V'))"
      using True d 1 2 3 4 unfolding c_def n_dims_def
      by (simp add: randomized_svd_def clamp_rank_le [OF assms(5)])
    have "is_matrix U rows n \<and> length S = n \<and> is_matrix V' n cols" if "n \<le> min rows cols"
    proof -
      have "n \<le> q" using that nd by (simp add: q)
      with that U S V show ?thesis by (simp add: min.absorb1)
    qed
    with r o show ?thesis by blast
  next
    case False
    then have nc: "n \<le> cols"
      using assms(5) nd unfolding c_def transpose_first_def by (auto simp: Let_def not_less)
    from randomized_direct [OF assms(1-4) nc, of n_dims n_iter random_state]
    obtain Q q M U S V U' where
      1: "randomized_range_finder E matrix n_dims n_iter random_state = Inr Q"
      and 2: "dot (tl_transpose Q) matrix = Inr M"
      and 3: "truncated_svd E M (Some n) = ([], Inr (U, S, V))"
      and 4: "dot Q U = Inr U'"
      and q: "q = (if n_iter = 0 then min rows n_dims else min (min rows cols) n_dims)"
      and U: "is_matrix U' rows (min n (if n > min q cols then q else min q cols))"
      and S: "length S = min n (min q cols)"
      and V: "is_matrix V (min n (if n > min q cols then cols else min q cols)) cols"
      and o: "sorted (rev S)" "list_all (\<lambda>s. 0 \<le> s) S"
      by blast
    have r: "randomized_svd E matrix (Some n) n_oversamples n_iter random_state
               = ([], Inr (U', S, V))"
      using False d 1 2 3 4 unfolding c_def n_dims_def
      by (simp add: randomized_svd_def clamp_rank_le [OF assms(5)])
    have "is_matrix U' rows n \<and> length S = n \<and> is_matrix V n cols" if "n \<le> min rows cols"
    proof -
      have "n \<le> q" using that nd by (simp add: q)
      with that U S V show ?thesis by (simp add: min.absorb1)
    qed
    with r o show ?thesis by blast
  qed
qed

lemma randomized_svd_clamped:
  assumes "ndim matrix = 2" "max (nrows matrix) (ncols matrix) < k"
    and "randomized_svd E matrix (Some (max (nrows matrix) (ncols matrix))) n_oversamples
           n_iter random_state = ([], r)"
  shows "randomized_svd E matrix (Some k) n_oversamples n_iter random_state
           = ([RankTooLarge k (max (nrows matrix) (ncols matrix))], r)"
  using assms(1,3)
  unfolding randomized_svd_def Let_def clamp_rank_gt [OF assms(2)]
    clamp_rank_le [OF order_refl] case_prod_beta fst_conv snd_conv
  by (auto split: sum.splits if_splits)

section \<open>Ranks above the dimensions\<close>

lemma slice_cols_whole: "is_matrix A r c \<Longrightarrow> c \<le> n \<Longrightarrow> slice_cols A n = A"
  using mk2_entry [of A r c] by (simp add: slice_cols_def is_matrix_dims min.absorb2)

lemma slice_rows_whole: "is_matrix A r c \<Longrightarrow> r \<le> n \<Longrightarrow> slice_rows A n = A"
  using mk2_entry [of A r c] by (simp add: slice_rows_def is_matrix_dims min.absorb2)

text \<open>
  Claim C2 as stated fails for \<open>partial_svd\<close>: it has no clamp and no warning for a
  rank above \<open>max(rows, cols)\<close>. On the 10 by 4 matrix of the spec's example, with the
  rank 15 and a NumPy array, it returns with no warning at all; its slices stop at the
  end of each axis.
\<close>

theorem partial_svd_no_rank_warning_counterexample:
  "max (10::nat) 4 < 15
   \<and> partial_svd zero_env True (zeros 10 4) (Some 15) None
       = ([], Inr (eye 10 10, replicate 4 0, eye 4 4))"
proof -
  have "slice_cols (eye 10 10) 15 = eye 10 10"
    by (rule slice_cols_whole [of _ 10 10]) simp_all
  moreover have "slice_rows (eye 4 4) 15 = eye 4 4"
    by (rule slice_rows_whole [of _ 4 4]) simp_all
  ultimately
  have "partial_svd zero_env True (zeros 10 4) (Some 15) None
       = ([], Inr (eye 10 10, replicate 4 0, eye 4 4))"
    by (simp add: partial_svd_def partial_svd_dense_def zero_env_def zeros_def ndim_def
          mk2_def nrows_def ncols_def)
  then show ?thesis by simp
qed

text \<open>
  Claim C2, amended. Where the dense decompositions and the random generator return
  what they document, a rank \<open>k\<close> above \<open>max(rows, cols)\<close> raises no exception in any of the
  four strategies. \<open>truncated_svd\<close>, \<open>symeig_svd\<close> and \<open>randomized_svd\<close> clamp it: they emit
  the one warning that the rank is set to \<open>max(rows, cols)\<close> and return what they return
  for that rank, for which they emit no warning. \<open>partial_svd\<close> neither clamps the rank
  nor warns about it (its only warning is the one about a conversion to NumPy): it takes
  the dense decomposition with full matrices and slices it at \<open>k\<close>; each slice stops at the
  end of its axis, so the factors are returned whole, \<open>U\<close> of \<open>rows\<close> by \<open>rows\<close>,
  \<open>min(rows, cols)\<close> singular values and \<open>V\<close> of \<open>cols\<close> by \<open>cols\<close>.
\<close>

theorem rank_above_max_dim:
  assumes "svd_returns E" "eigh_returns E" "qr_returns E" "normal_returns E"
    and "is_matrix matrix rows cols" "max rows cols < k"
  shows "(\<exists>t. truncated_svd E matrix (Some k) = ([RankTooLarge k (max rows cols)], Inr t)
              \<and> truncated_svd E matrix (Some (max rows cols)) = ([], Inr t))
       \<and> (\<exists>t. symeig_svd E matrix (Some k) = ([RankTooLarge k (max rows cols)], Inr t)
              \<and> symeig_svd E matrix (Some (max rows cols)) = ([], Inr t))
       \<and> (\<exists>t. randomized_svd E matrix (Some k) n_oversamples n_iter random_state
                  = ([RankTooLarge k (max rows cols)], Inr t)
              \<and> randomized_svd E matrix (Some (max rows cols)) n_oversamples n_iter random_state
                  = ([], Inr t))
       \<and> (\<exists>U S V. tl_svd E matrix True = (U, S, V)
              \<and> partial_svd E is_numpy matrix (Some k) random_state
                  = (if is_numpy then [] else [ConvertingToNumPy],
                     Inr (slice_cols U k, take k S, slice_rows V k))
              \<and> slice_cols U k = U \<and> take k S = S \<and> slice_rows V k = V
              \<and> is_matrix U rows rows \<and> length S = min rows cols \<and> is_matrix V cols cols)"
proof -
  note c = assms(1-4)
  note m = assms(5)
  note d = is_matrix_dims [OF m]
  have nd: "ndim matrix = 2" and mx: "max (nrows matrix) (ncols matrix) < k"
    using d assms(6) by simp_all
  have 1: "\<exists>t. truncated_svd E matrix (Some k) = ([RankTooLarge k (max rows cols)], Inr t)
              \<and> truncated_svd E matrix (Some (max rows cols)) = ([], Inr t)"
  proof -
    from truncated_svd_returns [OF c(1) m order_refl] obtain U S V where
      t: "truncated_svd E matrix (Some (max rows cols)) = ([], Inr (U, S, V))" by blast
    with truncated_svd_clamped [OF nd mx, of E] d
    have "truncated_svd E matrix (Some k) = ([RankTooLarge k (max rows cols)], Inr (U, S, V))"
      by simp
    with t show ?thesis by blast
  qed
  have 2: "\<exists>t. symeig_svd E matrix (Some k) = ([RankTooLarge k (max rows cols)], Inr t)
              \<and> symeig_svd E matrix (Some (max rows cols)) = ([], Inr t)"
  proof -
    from symeig_factors_returns [OF m c(2)] obtain U S V where
      "symeig_factors E matrix = Inr (U, S, V)" by blast
    from symeig_svd_unfold [OF m this, of "Some (max rows cols)"]
    obtain t where t: "symeig_svd E matrix (Some (max rows cols)) = ([], Inr t)"
      by (simp add: clamp_rank_le)
    with symeig_svd_clamped [OF nd mx, of E] d
    have "symeig_svd E matrix (Some k) = ([RankTooLarge k (max rows cols)], Inr t)"
      by simp
    with t show ?thesis by blast
  qed
  have 3: "\<exists>t. randomized_svd E matrix (Some k) n_oversamples n_iter random_state
                  = ([RankTooLarge k (max rows cols)], Inr t)
              \<and> randomized_svd E matrix (Some (max rows cols)) n_oversamples n_iter random_state
                  = ([], Inr t)"
  proof -
    from randomized_svd_returns [OF c(1,3,4) m order_refl] obtain U S V where
      t: "randomized_svd E matrix (Some (max rows cols)) n_oversamples n_iter random_state
            = ([], Inr (U, S, V))"
      by blast
    then have "randomized_svd E matrix (Some (max (nrows matrix) (ncols matrix)))
         n_oversamples n_iter random_state = ([], Inr (U, S, V))"
      using d by simp
    from randomized_svd_clamped [OF nd mx this] d
    have "randomized_svd E matrix (Some k) n_oversamples n_iter random_state
            = ([RankTooLarge k (max rows cols)], Inr (U, S, V))"
      by simp
    with t show ?thesis by blast
  qed
  have 4: "\<exists>U S V. tl_svd E matrix True = (U, S, V)
              \<and> partial_svd E is_numpy matrix (Some k) random_state
                  = (if is_numpy then [] else [ConvertingToNumPy],
                     Inr (slice_cols U k, take k S, slice_rows V k))
              \<and> slice_cols U k = U \<and> take k S = S \<and> slice_rows V k = V
              \<and> is_matrix U rows rows \<and> length S = min rows cols \<and> is_matrix V cols cols"
  proof -
    obtain U S V where s: "tl_svd E matrix True = (U, S, V)"
      by (cases "tl_svd E matrix True") auto
    from svd_returnsD [OF c(1) m s]
    have U: "is_matrix U rows rows" and S: "length S = min rows cols"
      and V: "is_matrix V cols cols"
      by simp_all
    have lt: "min rows cols < k" "rows \<le> k" "cols \<le> k" using assms(6) by linarith+
    have "partial_svd E is_numpy matrix (Some k) random_state
            = (if is_numpy then [] else [ConvertingToNumPy],
               Inr (slice_cols U k, take k S, slice_rows V k))"
      using d lt(1) s by (simp add: partial_svd_def partial_svd_dense_def Let_def)
    moreover have "slice_cols U k = U" using U lt(2) by (rule slice_cols_whole)
    moreover have "slice_rows V k = V" using V lt(3) by (rule slice_rows_whole)
    moreover have "take k S = S" using S lt(1) by simp
    ultimately show ?thesis using s U S V by blast
  qed
  show ?thesis using 1 2 3 4 by blast
qed

theorem rank_above_max_dim_witness:
  "svd_returns zero_env \<and> eigh_returns zero_env \<and> qr_returns zero_env
   \<and> normal_returns zero_env \<and> is_matrix (zeros 3 2) 3 2 \<and> max (3::nat) 2 < 7
   \<and> truncated_svd zero_env (zeros 3 2) (Some 7)
       = ([RankTooLarge 7 3], Inr (eye 3 3, [0, 0], eye 2 2))
   \<and> (\<exists>t. symeig_svd zero_env (zeros 3 2) (Some 7) = ([RankTooLarge 7 (max 3 2)], Inr t)
          \<and> symeig_svd zero_env (zeros 3 2) (Some (max 3 2)) = ([], Inr t))
   \<and> randomized_svd zero_env (zeros 3 2) (Some 7) 5 2 None
       = ([RankTooLarge 7 3], Inr (eye 3 3, [0, 0], eye 2 2))
   \<and> tl_svd zero_env (zeros 3 2) True = (eye 3 3, [0, 0], eye 2 2)
   \<and> partial_svd zero_env False (zeros 3 2) (Some 7) None
       = ([ConvertingToNumPy], Inr (eye 3 3, [0, 0], eye 2 2))"
proof -
  have m: "is_matrix (zeros 3 2) 3 2" by simp
  have k: "max (3::nat) 2 < 7" by simp
  note r = rank_above_max_dim [OF svd_returns_zero_env eigh_returns_zero_env
      qr_returns_zero_env normal_returns_zero_env m k, of 5 2 None False]
  have t: "truncated_svd zero_env (zeros 3 2) (Some 7)
       = ([RankTooLarge 7 3], Inr (eye 3 3, [0, 0], eye 2 2))"
    by code_simp
  have z: "randomized_svd zero_env (zeros 3 2) (Some 7) 5 2 None
       = ([RankTooLarge 7 3], Inr (eye 3 3, [0, 0], eye 2 2))"
    by code_simp
  have s: "tl_svd zero_env (zeros 3 2) True = (eye 3 3, [0, 0], eye 2 2)"
    by (simp add: eval_arrays)
  from r have p: "partial_svd zero_env False (zeros 3 2) (Some 7) None
       = ([ConvertingToNumPy], Inr (eye 3 3, [0, 0], eye 2 2))"
    unfolding s by auto
  from r have y: "\<exists>t. symeig_svd zero_env (zeros 3 2) (Some 7)
                      = ([RankTooLarge 7 (max 3 2)], Inr t)
          \<and> symeig_svd zero_env (zeros 3 2) (Some (max 3 2)) = ([], Inr t)"
    by blast
  show ?thesis
    using y svd_returns_zero_env eigh_returns_zero_env qr_returns_zero_env
      normal_returns_zero_env m k t z s p
    by blast
qed

section \<open>Valid ranks\<close>

text \<open>
  Claim C1 as stated fails for \<open>partial_svd\<close>: for a rank below \<open>min(rows, cols)\<close> it calls
  the sparse eigensolver on the Gram matrix, and does not catch what \<open>eigsh\<close> raises.
  ARPACK fails on the Gram matrix of a zero matrix: on the 3 by 2 zero matrix with the
  rank 1, \<open>partial_svd\<close> raises the \<open>ArpackError\<close> and returns no triplet.
\<close>

theorem partial_svd_arpack_error_counterexample:
  "is_matrix (zeros 3 2) 3 2 \<and> (0::nat) < 1 \<and> 1 \<le> min (3::nat) 2
   \<and> partial_svd zero_env True (zeros 3 2) (Some 1) None = ([], Inl ArpackError)"
proof -
  have "partial_svd zero_env True (zeros 3 2) (Some 1) None = ([], Inl ArpackError)"
    by (simp add: partial_svd_def partial_svd_sparse_def and_then_def eval_arrays)
  then show ?thesis by simp
qed

text \<open>
  Claim C1, amended. For a matrix of shape \<open>(rows, cols)\<close> and a rank
  \<open>0 < k <= min(rows, cols)\<close>, where the collaborators return what they document and the
  machine epsilon is positive, \<open>truncated_svd\<close>, \<open>symeig_svd\<close> and \<open>randomized_svd\<close> return a
  triplet \<open>(U, S, V)\<close> with \<open>U\<close> of shape \<open>rows\<close> by \<open>k\<close>, \<open>S\<close> of length \<open>k\<close>, non-negative and
  in non-increasing order, and \<open>V\<close> of shape \<open>k\<close> by \<open>cols\<close>. \<open>partial_svd\<close> returns such a
  triplet too, unless \<open>k < min(rows, cols)\<close> and the sparse eigensolver raises on the Gram
  matrix: then \<open>partial_svd\<close> raises the error of \<open>eigsh\<close>.
\<close>

theorem strategies_return_rank_k_triplet:
  assumes "collaborators_return E" "0 < tl_eps E"
    and "is_matrix matrix rows cols" "0 < k" "k \<le> min rows cols"
  shows "triplet_of_rank rows cols k (snd (truncated_svd E matrix (Some k)))
       \<and> triplet_of_rank rows cols k (snd (symeig_svd E matrix (Some k)))
       \<and> triplet_of_rank rows cols k
           (snd (randomized_svd E matrix (Some k) n_oversamples n_iter random_state))
       \<and> (triplet_of_rank rows cols k
             (snd (partial_svd E is_numpy matrix (Some k) random_state))
          \<or> k < min rows cols
            \<and> (\<exists>e. sparse_eigsh E matrix k random_state = Inl e
                   \<and> snd (partial_svd E is_numpy matrix (Some k) random_state) = Inl e))"
proof -
  from assms(1) have c: "svd_returns E" "eigh_returns E" "eigsh_returns E" "qr_returns E"
    "normal_returns E"
    by (simp_all add: collaborators_return_def)
  note d = is_matrix_dims [OF assms(3)]
  have km: "k \<le> max rows cols" using assms(5) by (simp add: le_max_iff_disj)
  have nf: "\<not> k > min rows cols" using assms(5) by linarith
  have 0: "triplet_of_rank rows cols k
             (snd (partial_svd E is_numpy matrix (Some k) random_state))"
    if "k = min rows cols"
  proof -
    from that have "min rows cols \<le> k" by simp
    from partial_svd_dense_returns [OF c(1) assms(3) this, of is_numpy random_state]
    show ?thesis using nf that by (auto simp: triplet_of_rank_def)
  qed
  have 1: "case sparse_eigsh E matrix k random_state of
             Inl e \<Rightarrow> snd (partial_svd E is_numpy matrix (Some k) random_state) = Inl e
           | Inr p \<Rightarrow> triplet_of_rank rows cols k
                       (snd (partial_svd E is_numpy matrix (Some k) random_state))"
    if lt: "k < min rows cols"
  proof -
    from lt have "\<not> min rows cols \<le> k" by linarith
    then have "\<not> min (nrows matrix) (ncols matrix) \<le> k" using d by simp
    then have s: "snd (partial_svd E is_numpy matrix (Some k) random_state)
                 = partial_svd_sparse E matrix k random_state"
      using d by (simp add: partial_svd_def Let_def)
    show ?thesis
    proof (cases "sparse_eigsh E matrix k random_state")
      case (Inl e)
      from partial_svd_sparse_raises [OF this] show ?thesis using Inl s by simp
    next
      case (Inr p)
      from partial_svd_sparse_returns [OF c(3,4) assms(3,4) lt this]
      show ?thesis using Inr s by (auto simp: triplet_of_rank_def)
    qed
  qed
  have 2: "triplet_of_rank rows cols k (snd (truncated_svd E matrix (Some k)))"
    using truncated_svd_returns [OF c(1) assms(3) km] nf assms(5)
    by (auto simp: triplet_of_rank_def min.absorb1)
  have 3: "triplet_of_rank rows cols k (snd (symeig_svd E matrix (Some k)))"
  proof -
    from symeig_factors_returns [OF assms(3) c(2)] assms(2) obtain U S V where
      f: "symeig_factors E matrix = Inr (U, S, V)"
      and U: "is_matrix U rows (max rows cols)" and S: "length S = max rows cols"
      and V: "is_matrix V (max rows cols) cols"
      and o: "sorted (rev S)" "list_all (\<lambda>s. 0 \<le> s) S"
      by auto
    have k1: "min rows k = k" "min (min rows cols) k = k" "min cols k = k"
      "min k (max rows cols) = k" "min (max rows cols) k = k"
      using assms(5) by linarith+
    have "snd (symeig_svd E matrix (Some k)) = Inr (slice_cols U k, take k S, slice_rows V k)"
      by (simp add: symeig_svd_unfold [OF assms(3) f] clamp_rank_le [OF km] k1)
    moreover have "is_matrix (slice_cols U k) rows k"
      using is_matrix_slice_cols [OF U, of k] by (simp add: k1)
    moreover have "is_matrix (slice_rows V k) k cols"
      using is_matrix_slice_rows [OF V, of k] by (simp add: k1)
    moreover have "length (take k S) = k" using S by (simp add: k1)
    moreover have "sorted (rev (take k S))" using o(1) by (rule sorted_rev_take)
    moreover have "list_all (\<lambda>s. 0 \<le> s) (take k S)" using o(2) by (rule list_all_take)
    ultimately show ?thesis by (simp add: triplet_of_rank_def)
  qed
  have 4: "triplet_of_rank rows cols k
             (snd (randomized_svd E matrix (Some k) n_oversamples n_iter random_state))"
    using randomized_svd_returns [OF c(1,4,5) assms(3) km, of n_oversamples n_iter random_state]
      assms(5)
    by (auto simp: triplet_of_rank_def)
  have 5: "triplet_of_rank rows cols k
             (snd (partial_svd E is_numpy matrix (Some k) random_state))
          \<or> k < min rows cols
            \<and> (\<exists>e. sparse_eigsh E matrix k random_state = Inl e
                   \<and> snd (partial_svd E is_numpy matrix (Some k) random_state) = Inl e)"
  proof (cases "k = min rows cols")
    case True
    from 0 [OF this] show ?thesis by simp
  next
    case False
    with assms(5) have lt: "k < min rows cols" by linarith
    from 1 [OF lt] lt show ?thesis
      by (cases "sparse_eigsh E matrix k random_state") simp_all
  qed
  show ?thesis using 2 3 4 5 by blast
qed

theorem strategies_return_rank_k_triplet_witness:
  "collaborators_return diag_env \<and> 0 < tl_eps diag_env
   \<and> is_matrix diag_matrix 3 3 \<and> (0::nat) < 2 \<and> 2 \<le> min (3::nat) 3
   \<and> triplet_of_rank 3 3 2 (snd (truncated_svd diag_env diag_matrix (Some 2)))
   \<and> triplet_of_rank 3 3 2 (snd (symeig_svd diag_env diag_matrix (Some 2)))
   \<and> triplet_of_rank 3 3 2 (snd (randomized_svd diag_env diag_matrix (Some 2) 5 2 None))
   \<and> sparse_eigsh diag_env diag_matrix 2 None
       = Inr ([0, 9], NDArray [3, 2] [0, 1,  1, 0,  0, 0])
   \<and> triplet_of_rank 3 3 2 (snd (partial_svd diag_env True diag_matrix (Some 2) None))
   \<and> partial_svd diag_env True diag_matrix (Some 2) None
       = ([], Inr (NDArray [3, 2] [1, 0,  0, 1,  0, 0], [3, 1 / 2 ^ 52],
                   NDArray [2, 3] [1, 0, 0,  0, 1, 0]))
   \<and> truncated_svd diag_env diag_matrix (Some 2) = ([], Inr (eye 3 2, [3, 0], eye 2 3))
   \<and> symeig_svd diag_env diag_matrix (Some 2)
       = ([], Inr (NDArray [3, 2] [1, 0,  0, 0,  0, 0], [3, 1 / 2 ^ 26],
                   NDArray [2, 3] [1, 0, 0,  0, 0, 1]))
   \<and> randomized_svd diag_env diag_matrix (Some 2) 5 2 None
       = ([], Inr (eye 3 2, [3, 0], eye 2 3))"
proof -
  have e: "0 < tl_eps diag_env" by (simp add: diag_env_def zero_env_def)
  have m: "is_matrix diag_matrix 3 3" by (simp add: diag_matrix_def is_matrix_def)
  have a: "(0::nat) < 2" by simp
  have b: "2 \<le> min (3::nat) 3" by simp
  have g: "sparse_eigsh diag_env diag_matrix 2 None
       = Inr ([0, 9], NDArray [3, 2] [0, 1,  1, 0,  0, 0])"
    by code_simp
  have t: "truncated_svd diag_env diag_matrix (Some 2) = ([], Inr (eye 3 2, [3, 0], eye 2 3))"
    by code_simp
  have z: "randomized_svd diag_env diag_matrix (Some 2) 5 2 None
       = ([], Inr (eye 3 2, [3, 0], eye 2 3))"
    by code_simp
  have s: "symeig_svd diag_env diag_matrix (Some 2)
       = ([], Inr (NDArray [3, 2] [1, 0,  0, 0,  0, 0], [3, 1 / 2 ^ 26],
                   NDArray [2, 3] [1, 0, 0,  0, 0, 1]))"
    by (simp add: symeig_svd_def symeig_factors_def symeig_singular_values_def clamp_rank_def
          diag_env_def diag_matrix_def diag_gram_def and_then_def
          eval_arrays sqrt_eps64 sqrt_9 Suc_Suc_0)
  note r = strategies_return_rank_k_triplet [OF collaborators_return_diag_env e m a b,
      of 5 2 None True]
  from r have r1: "triplet_of_rank 3 3 2 (snd (truncated_svd diag_env diag_matrix (Some 2)))"
    and r2: "triplet_of_rank 3 3 2 (snd (symeig_svd diag_env diag_matrix (Some 2)))"
    and r3: "triplet_of_rank 3 3 2
               (snd (randomized_svd diag_env diag_matrix (Some 2) 5 2 None))"
    by blast+
  from r have "triplet_of_rank 3 3 2
                 (snd (partial_svd diag_env True diag_matrix (Some 2) None))
     \<or> (\<exists>e. sparse_eigsh diag_env diag_matrix 2 None = Inl e)"
    by blast
  then have r4: "triplet_of_rank 3 3 2
                   (snd (partial_svd diag_env True diag_matrix (Some 2) None))"
    unfolding g by simp
  show ?thesis
    using collaborators_return_diag_env e m a b r1 r2 r3 g r4 partial_svd_diag t s z
    by blast
qed

end
